theory Spec2Isabelle
  imports Main "HOL-Library.Word"
begin

section \<open>JavaScript values\<close>

text \<open>
  A JavaScript string is a sequence of UTF-16 code units; \<open>length\<close>, \<open>slice\<close> and a regular
  expression without the \<open>u\<close> flag all work on code units. A \<open>Buffer\<close> is a sequence of
  bytes. A value that may be \<open>null\<close> or \<open>undefined\<close> is an \<open>option\<close>. Timestamps are
  the integers \<open>Math.floor(Date.now() / 1000)\<close>.
\<close>

type_synonym code_unit = "16 word"
type_synonym jsstring = "code_unit list"
type_synonym bytes = "8 word list"

definition js :: "string \<Rightarrow> jsstring" where
  "js s = map of_char s"

text \<open>\<open>a ?? b\<close>\<close>

definition nullish :: "'a option \<Rightarrow> 'a \<Rightarrow> 'a" where
  "nullish a b = (case a of None \<Rightarrow> b | Some v \<Rightarrow> v)"

text \<open>\<open>a || b\<close> on strings: \<open>null\<close>, \<open>undefined\<close> and the empty string are falsy.\<close>

definition or_str :: "jsstring option \<Rightarrow> jsstring \<Rightarrow> jsstring" where
  "or_str a b = (case a of None \<Rightarrow> b | Some s \<Rightarrow> if s \<noteq> [] then s else b)"

text \<open>\<open>a || b\<close> on numbers: \<open>null\<close>, \<open>undefined\<close> and \<open>0\<close> are falsy.\<close>

definition or_int :: "int option \<Rightarrow> int \<Rightarrow> int" where
  "or_int a b = (case a of None \<Rightarrow> b | Some n \<Rightarrow> if n \<noteq> 0 then n else b)"

text \<open>An identifier as a store client hands it over: a string, \<open>null\<close> or \<open>undefined\<close>.\<close>

datatype jsval = Undefined | Null | Str jsstring

text \<open>\<open>String(v)\<close>\<close>

definition String' :: "jsval \<Rightarrow> jsstring" where
  "String' v = (case v of Undefined \<Rightarrow> js ''undefined'' | Null \<Rightarrow> js ''null'' | Str s \<Rightarrow> s)"

text \<open>\<open>v ?? null\<close>, and a nullable \<open>TEXT\<close> column as JavaScript reads it.\<close>

definition nullable :: "jsval \<Rightarrow> jsstring option" where
  "nullable v = (case v of Undefined \<Rightarrow> None | Null \<Rightarrow> None | Str s \<Rightarrow> Some s)"

definition column_value :: "jsstring option \<Rightarrow> jsval" where
  "column_value c = (case c of None \<Rightarrow> Null | Some s \<Rightarrow> Str s)"

text \<open>\<open>s.replace(/\/+$/, '')\<close>: the trailing run of slashes is removed.\<close>

definition strip_trailing_slashes :: "jsstring \<Rightarrow> jsstring" where
  "strip_trailing_slashes s = rev (dropWhile (\<lambda>c. c = 0x2F) (rev s))"

datatype error = NotFound jsstring | UpstreamError jsstring

section \<open>db.js: the table \<open>file_mappings\<close>\<close>

text \<open>
  One row of \<open>file_mappings\<close>, with the columns' names. The columns \<open>cloudreve_path\<close>,
  \<open>telegram_file_id\<close> and \<open>created_at\<close> are \<open>NOT NULL\<close>; \<open>file_size\<close>, \<open>last_accessed\<close>
  and \<open>has_local_cache\<close> are never written as \<open>NULL\<close> by \<open>upsertMapping\<close>, which is the
  only \<open>INSERT\<close>. The surrogate key \<open>id\<close> is read nowhere and is left out.
\<close>

record mapping_row =
  cloudreve_file_id :: "jsstring option"
  cloudreve_path :: jsstring
  telegram_file_id :: jsstring
  telegram_message_id :: "int option"
  file_name :: "jsstring option"
  file_size :: int
  mime_type :: "jsstring option"
  last_accessed :: int
  created_at :: int
  has_local_cache :: int

text \<open>The argument of \<open>upsertMapping\<close>; its field \<open>cloudreve_path\<close> is \<open>record_path\<close> here.\<close>

record upsert_record =
  cloudreveFileId :: "jsstring option"
  record_path :: jsstring
  telegramFileId :: jsstring
  telegramMessageId :: "int option"
  fileName :: "jsstring option"
  fileSize :: "int option"
  mimeType :: "jsstring option"
  lastAccessed :: "int option"
  createdAt :: "int option"
  hasLocalCache :: "int option"

text \<open>
  The mutable world: the rows of the table in insertion order, the number of times the
  clock has been read, and the calls made so far to the two remote stores.
\<close>

record cr_upload =
  filePath :: jsstring
  up_fileName :: jsstring
  up_fileSize :: int
  up_mimeType :: jsstring
  up_data :: bytes

record tg_upload =
  tg_data :: bytes
  tg_fileName :: jsstring
  tg_mimeType :: jsstring
  tg_fileSize :: int
  tg_caption :: jsstring

datatype event =
    EnsureDirectory jsstring
  | ListDirectory jsstring
  | CrDownload jsval
  | CrUpload cr_upload
  | CrDelete jsstring
  | TgDownload jsstring
  | TgUpload tg_upload

record world =
  rows :: "mapping_row list"
  reads :: nat
  calls :: "event list"

text \<open>A fetch response: \<open>ok\<close>, \<open>status\<close>, the \<open>content-type\<close> header, and the body, which
  is \<open>None\<close> when \<open>buffer()\<close> rejects.\<close>

record response =
  ok :: bool
  status :: int
  content_type :: "jsstring option"
  body :: "bytes option"

text \<open>An entry of a directory listing.\<close>

record fobject =
  obj_name :: jsstring
  obj_type :: jsstring
  fileId :: jsval
  obj_size :: "int option"

text \<open>
  Everything outside the program: the clock (its \<open>k\<close>-th reading), the configuration, and
  the answers of the two store clients, where \<open>Inl\<close> is a thrown error.
  \<open>posix_dirname\<close> is Node's \<open>path.posix.dirname\<close>.
\<close>

record env =
  clock :: "nat \<Rightarrow> int"
  inboxPath :: jsstring
  baseUrl :: jsstring
  cacheIdleDays :: int
  posix_dirname :: "jsstring \<Rightarrow> jsstring"
  cr_listDirectory :: "jsstring \<Rightarrow> error + fobject list option"
  cr_downloadFile :: "jsval \<Rightarrow> error + response"
  cr_uploadFile :: "cr_upload \<Rightarrow> error + jsval"
  cr_deleteFile :: "jsstring \<Rightarrow> error + unit"
  tg_downloadFile :: "jsstring \<Rightarrow> error + bytes \<times> jsstring"
  tg_uploadFile :: "tg_upload \<Rightarrow> error + jsstring \<times> int option"

text \<open>\<open>Math.floor(Date.now() / 1000)\<close>\<close>

definition now :: "env \<Rightarrow> world \<Rightarrow> int \<times> world" where
  "now e w = (clock e (reads w), w\<lparr>reads := Suc (reads w)\<rparr>)"

definition call :: "event \<Rightarrow> world \<Rightarrow> world" where
  "call ev w = w\<lparr>calls := calls w @ [ev]\<rparr>"

text \<open>
  The statement of \<open>upsertMapping\<close>: an insert, or on a conflict on \<open>cloudreve_path\<close> an
  update of every column but \<open>cloudreve_path\<close> and \<open>created_at\<close>.
\<close>

definition on_conflict_update :: "mapping_row \<Rightarrow> mapping_row \<Rightarrow> mapping_row" where
  "on_conflict_update excluded row =
     row\<lparr>cloudreve_file_id := cloudreve_file_id excluded,
         telegram_file_id := telegram_file_id excluded,
         telegram_message_id := telegram_message_id excluded,
         file_name := file_name excluded,
         file_size := file_size excluded,
         mime_type := mime_type excluded,
         last_accessed := last_accessed excluded,
         has_local_cache := has_local_cache excluded\<rparr>"

definition insert_or_update :: "mapping_row \<Rightarrow> mapping_row list \<Rightarrow> mapping_row list" where
  "insert_or_update new rs =
     (if cloudreve_path new \<in> set (map cloudreve_path rs)
      then map (\<lambda>row. if cloudreve_path row = cloudreve_path new
                       then on_conflict_update new row else row) rs
      else rs @ [new])"

text \<open>The parameters that \<open>upsertMapping\<close> binds with \<open>stmt.run\<close>, as a row.\<close>

definition bound_row :: "env \<Rightarrow> upsert_record \<Rightarrow> world \<Rightarrow> mapping_row" where
  "bound_row e r w =
     \<lparr>cloudreve_file_id = cloudreveFileId r,
      cloudreve_path = record_path r,
      telegram_file_id = telegramFileId r,
      telegram_message_id = telegramMessageId r,
      file_name = fileName r,
      file_size = nullish (fileSize r) 0,
      mime_type = mimeType r,
      last_accessed = nullish (lastAccessed r) 0,
      created_at = nullish (createdAt r) (fst (now e w)),
      has_local_cache = nullish (hasLocalCache r) 1\<rparr>"

definition upsertMapping :: "env \<Rightarrow> upsert_record \<Rightarrow> world \<Rightarrow> world" where
  "upsertMapping e r w =
     (let new = bound_row e r w;
          w1 = (case createdAt r of Some c \<Rightarrow> w | None \<Rightarrow> snd (now e w))
      in w1\<lparr>rows := insert_or_update new (rows w1)\<rparr>)"

text \<open>
  In the other definitions of this section and in those of sync.js, a string stands for
  the text that SQLite holds. \<open>stmt.run\<close> binds a JavaScript string as UTF-8 text: a surrogate
  code unit that is not half of a pair cannot be encoded and is stored as U+FFFD, and
  every other string is stored as it is. \<open>to_text\<close> is the string that is read back, and
  \<open>upsertMapping_utf8\<close> is \<open>upsertMapping\<close> with this conversion of its five strings.
\<close>

definition high_surrogate :: "code_unit \<Rightarrow> bool" where
  "high_surrogate c = (0xD800 \<le> c \<and> c \<le> 0xDBFF)"

definition low_surrogate :: "code_unit \<Rightarrow> bool" where
  "low_surrogate c = (0xDC00 \<le> c \<and> c \<le> 0xDFFF)"

fun to_text :: "jsstring \<Rightarrow> jsstring" where
  "to_text [] = []"
| "to_text [c] = (if high_surrogate c \<or> low_surrogate c then [0xFFFD] else [c])"
| "to_text (c # d # cs) =
     (if high_surrogate c \<and> low_surrogate d then c # d # to_text cs
      else if high_surrogate c \<or> low_surrogate c then 0xFFFD # to_text (d # cs)
      else c # to_text (d # cs))"

definition bind_text :: "upsert_record \<Rightarrow> upsert_record" where
  "bind_text r =
     r\<lparr>cloudreveFileId := map_option to_text (cloudreveFileId r),
       record_path := to_text (record_path r),
       telegramFileId := to_text (telegramFileId r),
       fileName := map_option to_text (fileName r),
       mimeType := map_option to_text (mimeType r)\<rparr>"

definition upsertMapping_utf8 :: "env \<Rightarrow> upsert_record \<Rightarrow> world \<Rightarrow> world" where
  "upsertMapping_utf8 e r w = upsertMapping e (bind_text r) w"

definition getMappingByPath :: "jsstring \<Rightarrow> world \<Rightarrow> mapping_row option" where
  "getMappingByPath p w = find (\<lambda>row. cloudreve_path row = p) (rows w)"

definition touchMapping :: "env \<Rightarrow> jsstring \<Rightarrow> world \<Rightarrow> world" where
  "touchMapping e p w =
     (let (t, w1) = now e w
      in w1\<lparr>rows := map (\<lambda>row. if cloudreve_path row = p
                                 then row\<lparr>last_accessed := t\<rparr> else row) (rows w1)\<rparr>)"

definition markEvicted :: "jsstring \<Rightarrow> world \<Rightarrow> world" where
  "markEvicted p w =
     w\<lparr>rows := map (\<lambda>row. if cloudreve_path row = p
                           then row\<lparr>has_local_cache := 0\<rparr> else row) (rows w)\<rparr>"

definition markCached :: "env \<Rightarrow> jsstring \<Rightarrow> world \<Rightarrow> world" where
  "markCached e p w =
     (let (t, w1) = now e w
      in w1\<lparr>rows := map (\<lambda>row. if cloudreve_path row = p
                                 then row\<lparr>has_local_cache := 1, last_accessed := t\<rparr>
                                 else row) (rows w1)\<rparr>)"

definition getStaleEntries :: "env \<Rightarrow> int \<Rightarrow> world \<Rightarrow> mapping_row list \<times> world" where
  "getStaleEntries e thresholdSeconds w =
     (let (t, w1) = now e w;
          cutoff = t - thresholdSeconds
      in (filter (\<lambda>row. has_local_cache row = 1 \<and> last_accessed row < cutoff
                          \<and> last_accessed row > 0) (rows w1), w1))"

text \<open>The unique index \<open>idx_cloudreve_path\<close>.\<close>

definition unique_paths :: "world \<Rightarrow> bool" where
  "unique_paths w = distinct (map cloudreve_path (rows w))"

section \<open>sync.js\<close>

subsection \<open>Helpers\<close>

text \<open>The class \<open>[/\\:*?"<>|]\<close>.\<close>

definition unsafe_char :: "code_unit \<Rightarrow> bool" where
  "unsafe_char c =
     (c = 0x2F \<or> c = 0x5C \<or> c = 0x3A \<or> c = 0x2A \<or> c = 0x3F \<or> c = 0x22
      \<or> c = 0x3C \<or> c = 0x3E \<or> c = 0x7C)"

text \<open>The class \<open>\s\<close>: the white space and line terminator code points of ECMAScript.\<close>

definition js_whitespace :: "code_unit \<Rightarrow> bool" where
  "js_whitespace c =
     (c = 0x09 \<or> c = 0x0A \<or> c = 0x0B \<or> c = 0x0C \<or> c = 0x0D \<or> c = 0x20
      \<or> c = 0xA0 \<or> c = 0x1680 \<or> (0x2000 \<le> c \<and> c \<le> 0x200A)
      \<or> c = 0x2028 \<or> c = 0x2029 \<or> c = 0x202F \<or> c = 0x205F \<or> c = 0x3000
      \<or> c = 0xFEFF)"

definition underscore :: code_unit where
  "underscore = 0x5F"

text \<open>\<open>.replace(/[/\\:*?"<>|]/g, '_')\<close>\<close>

definition replace_unsafe :: "jsstring \<Rightarrow> jsstring" where
  "replace_unsafe s = map (\<lambda>c. if unsafe_char c then underscore else c) s"

text \<open>\<open>.replace(/\s+/g, '_')\<close>: every maximal run of white space becomes one underscore.\<close>

function replace_whitespace :: "jsstring \<Rightarrow> jsstring" where
  "replace_whitespace [] = []"
| "replace_whitespace (c # cs) =
     (if js_whitespace c
      then underscore # replace_whitespace (dropWhile js_whitespace cs)
      else c # replace_whitespace cs)"
  by pat_completeness auto
termination
  by (relation "measure length") (auto simp: le_imp_less_Suc length_dropWhile_le)

definition sanitizeFileName :: "jsstring option \<Rightarrow> jsstring" where
  "sanitizeFileName name =
     take 200 (replace_whitespace (replace_unsafe (or_str name (js ''file''))))"

definition buildCloudreveLink :: "jsstring \<Rightarrow> jsstring \<Rightarrow> jsstring" where
  "buildCloudreveLink base p = base @ js ''/s'' @ p"

text \<open>The template \<open>`${dir.replace(/\/+$/, '')}/${name}`\<close> of \<open>syncNewUploads\<close> and
  \<open>importFromTelegram\<close>.\<close>

definition join_path :: "jsstring \<Rightarrow> jsstring \<Rightarrow> jsstring" where
  "join_path dir name = strip_trailing_slashes dir @ js ''/'' @ name"

subsection \<open>syncNewUploads\<close>

record sync_result =
  synced :: nat
  errors :: nat

text \<open>
  The body of the \<open>for\<close> loop for one file: \<open>None\<close> is the \<open>continue\<close> of a file that has
  a mapping, \<open>Some False\<close> a counted error, \<open>Some True\<close> a file backed up.
\<close>

definition sync_file :: "env \<Rightarrow> jsstring \<Rightarrow> fobject \<Rightarrow> world \<Rightarrow> bool option \<times> world" where
  "sync_file e targetDir file w =
     (let filePath = join_path targetDir (obj_name file) in
      case getMappingByPath filePath w of
        Some existing \<Rightarrow> (None, w)
      | None \<Rightarrow>
         (let w1 = call (CrDownload (fileId file)) w in
          case cr_downloadFile e (fileId file) of
            Inl err \<Rightarrow> (Some False, w1)
          | Inr fileRes \<Rightarrow>
             if \<not> ok fileRes then (Some False, w1)
             else
              (case body fileRes of
                 None \<Rightarrow> (Some False, w1)
               | Some buffer \<Rightarrow>
                  (let mime = or_str (content_type fileRes) (js ''application/octet-stream'');
                       upload = \<lparr>tg_data = buffer, tg_fileName = obj_name file,
                                 tg_mimeType = mime, tg_fileSize = int (length buffer),
                                 tg_caption = js ''Synced from Cloudreve: '' @ filePath\<rparr>;
                       w2 = call (TgUpload upload) w1
                   in case tg_uploadFile e upload of
                        Inl err \<Rightarrow> (Some False, w2)
                      | Inr (tgFileId, messageId) \<Rightarrow>
                         (let (t1, w3) = now e w2;
                              (t2, w4) = now e w3
                          in (Some True,
                              upsertMapping e
                                \<lparr>cloudreveFileId = Some (String' (fileId file)),
                                 record_path = filePath,
                                 telegramFileId = tgFileId,
                                 telegramMessageId = messageId,
                                 fileName = Some (obj_name file),
                                 fileSize = Some (or_int (obj_size file) (int (length buffer))),
                                 mimeType = Some mime,
                                 lastAccessed = Some t1,
                                 createdAt = Some t2,
                                 hasLocalCache = Some 1\<rparr> w4))))))"

fun sync_loop :: "env \<Rightarrow> jsstring \<Rightarrow> fobject list \<Rightarrow> sync_result \<Rightarrow> world \<Rightarrow> sync_result \<times> world" where
  "sync_loop e targetDir [] acc w = (acc, w)"
| "sync_loop e targetDir (file # files) acc w =
     (case sync_file e targetDir file w of
        (None, w') \<Rightarrow> sync_loop e targetDir files acc w'
      | (Some False, w') \<Rightarrow> sync_loop e targetDir files (acc\<lparr>errors := Suc (errors acc)\<rparr>) w'
      | (Some True, w') \<Rightarrow> sync_loop e targetDir files (acc\<lparr>synced := Suc (synced acc)\<rparr>) w')"

definition syncNewUploads :: "env \<Rightarrow> jsstring option \<Rightarrow> world \<Rightarrow> (error + sync_result) \<times> world" where
  "syncNewUploads e dirPath w =
     (let targetDir = or_str dirPath (inboxPath e);
          w1 = call (EnsureDirectory targetDir) w;
          w2 = call (ListDirectory targetDir) w1
      in case cr_listDirectory e targetDir of
           Inl err \<Rightarrow> (Inl err, w2)
         | Inr listing \<Rightarrow>
            (let files = filter (\<lambda>entry. obj_type entry = js ''file'') (nullish listing []);
                 (res, w3) = sync_loop e targetDir files \<lparr>synced = 0, errors = 0\<rparr> w2
             in (Inr res, w3)))"

subsection \<open>downloadProxy\<close>

record served =
  buffer :: bytes
  served_fileName :: "jsstring option"
  served_mimeType :: jsstring

text \<open>Case A, the local cache: \<open>None\<close> is the fall through to case B.\<close>

definition proxy_cached :: "env \<Rightarrow> mapping_row \<Rightarrow> world \<Rightarrow> served option \<times> world" where
  "proxy_cached e mapping w =
     (if has_local_cache mapping \<noteq> 0 then
        (let w1 = call (CrDownload (column_value (cloudreve_file_id mapping))) w in
         case cr_downloadFile e (column_value (cloudreve_file_id mapping)) of
           Inl err \<Rightarrow> (None, w1)
         | Inr fileRes \<Rightarrow>
            if ok fileRes then
              (case body fileRes of
                 None \<Rightarrow> (None, w1)
               | Some buf \<Rightarrow>
                  (Some \<lparr>buffer = buf, served_fileName = file_name mapping,
                         served_mimeType =
                           or_str (content_type fileRes)
                             (or_str (mime_type mapping) (js ''application/octet-stream''))\<rparr>,
                   w1))
            else (None, w1))
      else (None, w))"

text \<open>Case B, the restore from Telegram.\<close>

definition proxy_restore :: "env \<Rightarrow> jsstring \<Rightarrow> mapping_row \<Rightarrow> world \<Rightarrow> (error + served) \<times> world" where
  "proxy_restore e path mapping w =
     (let w1 = call (TgDownload (telegram_file_id mapping)) w in
      case tg_downloadFile e (telegram_file_id mapping) of
        Inl err \<Rightarrow> (Inl err, w1)
      | Inr (buf, tgMime) \<Rightarrow>
         (let mime = or_str (mime_type mapping) tgMime;
              name = or_str (file_name mapping) (js ''file'');
              parentDir = or_str (Some (posix_dirname e path)) (js ''/'');
              w2 = call (EnsureDirectory parentDir) w1;
              upload = \<lparr>filePath = path, up_fileName = name,
                        up_fileSize = int (length buf), up_mimeType = mime, up_data = buf\<rparr>;
              w3 = call (CrUpload upload) w2;
              result = \<lparr>buffer = buf, served_fileName = Some name, served_mimeType = mime\<rparr>
          in case cr_uploadFile e upload of
               Inl uploadErr \<Rightarrow> (Inr result, markEvicted path w3)
             | Inr newCloudreveId \<Rightarrow>
                (let (t, w4) = now e w3
                 in (Inr result,
                     upsertMapping e
                       \<lparr>cloudreveFileId = nullable newCloudreveId,
                        record_path = path,
                        telegramFileId = telegram_file_id mapping,
                        telegramMessageId = telegram_message_id mapping,
                        fileName = Some name,
                        fileSize = Some (int (length buf)),
                        mimeType = Some mime,
                        lastAccessed = Some t,
                        createdAt = Some (created_at mapping),
                        hasLocalCache = Some 1\<rparr> w4))))"

definition downloadProxy :: "env \<Rightarrow> jsstring \<Rightarrow> world \<Rightarrow> (error + served) \<times> world" where
  "downloadProxy e path w =
     (case getMappingByPath path w of
        None \<Rightarrow> (Inl (NotFound path), w)
      | Some mapping \<Rightarrow>
         (let w1 = touchMapping e path w in
          case proxy_cached e mapping w1 of
            (Some result, w2) \<Rightarrow> (Inr result, w2)
          | (None, w2) \<Rightarrow> proxy_restore e path mapping w2))"

subsection \<open>importFromTelegram\<close>

record import_opts =
  in_telegramFileId :: jsstring
  in_telegramMessageId :: "int option"
  in_fileName :: "jsstring option"
  in_mimeType :: "jsstring option"
  in_fileSize :: "int option"

text \<open>The returned object; its field \<open>cloudreve_path\<close> is \<open>imported_path\<close> here.\<close>

record import_result =
  imported_path :: jsstring
  tgFileId :: jsstring
  directLink :: jsstring

definition destPath :: "env \<Rightarrow> jsstring option \<Rightarrow> jsstring" where
  "destPath e name = join_path (inboxPath e) (sanitizeFileName name)"

definition importFromTelegram :: "env \<Rightarrow> import_opts \<Rightarrow> world \<Rightarrow> (error + import_result) \<times> world" where
  "importFromTelegram e opts w =
     (let inboxDir = inboxPath e;
          safeName = sanitizeFileName (in_fileName opts);
          dest = destPath e (in_fileName opts)
      in case getMappingByPath dest w of
           Some existing \<Rightarrow>
             (Inr \<lparr>imported_path = dest, tgFileId = telegram_file_id existing,
                   directLink = buildCloudreveLink (baseUrl e) dest\<rparr>, w)
         | None \<Rightarrow>
            (let w1 = call (EnsureDirectory inboxDir) w;
                 w2 = call (TgDownload (in_telegramFileId opts)) w1
             in case tg_downloadFile e (in_telegramFileId opts) of
                  Inl err \<Rightarrow> (Inl err, w2)
                | Inr (buf, detectedMime) \<Rightarrow>
                   (let finalMime = or_str (in_mimeType opts) detectedMime;
                        upload = \<lparr>filePath = dest, up_fileName = safeName,
                                  up_fileSize = int (length buf), up_mimeType = finalMime,
                                  up_data = buf\<rparr>;
                        w3 = call (CrUpload upload) w2
                    in case cr_uploadFile e upload of
                         Inl err \<Rightarrow> (Inl err, w3)
                       | Inr cloudreveFileId' \<Rightarrow>
                          (let (t1, w4) = now e w3;
                               (t2, w5) = now e w4
                           in (Inr \<lparr>imported_path = dest, tgFileId = in_telegramFileId opts,
                                     directLink = buildCloudreveLink (baseUrl e) dest\<rparr>,
                               upsertMapping e
                                 \<lparr>cloudreveFileId = Some (String' cloudreveFileId'),
                                  record_path = dest,
                                  telegramFileId = in_telegramFileId opts,
                                  telegramMessageId = in_telegramMessageId opts,
                                  fileName = Some safeName,
                                  fileSize = Some (or_int (in_fileSize opts) (int (length buf))),
                                  mimeType = Some finalMime,
                                  lastAccessed = Some t1,
                                  createdAt = Some t2,
                                  hasLocalCache = Some 1\<rparr> w5)))))"

section \<open>cache.js\<close>






section \<open>Example values\<close>

text \<open>A mapping whose local copy has been evicted.\<close>

definition row0 :: mapping_row where
  "row0 = \<lparr>cloudreve_file_id = Some (js ''cf-1''), cloudreve_path = js ''/inbox/a.txt'',
           telegram_file_id = js ''tg-1'', telegram_message_id = Some 42,
           file_name = Some (js ''a.txt''), file_size = 3,
           mime_type = Some (js ''text/plain''), last_accessed = 500, created_at = 400,
           has_local_cache = 0\<rparr>"

definition world0 :: world where
  "world0 = \<lparr>rows = [row0], reads = 0, calls = []\<rparr>"

definition empty_world :: world where
  "empty_world = \<lparr>rows = [], reads = 0, calls = []\<rparr>"

definition file0 :: fobject where
  "file0 = \<lparr>obj_name = js ''a.txt'', obj_type = js ''file'', fileId = Str (js ''cf-1''),
            obj_size = Some 3\<rparr>"

text \<open>An environment in which every call succeeds; the clock advances by 1000 seconds a
  reading.\<close>

definition env0 :: env where
  "env0 = \<lparr>clock = (\<lambda>k. 1000 + 1000 * int k),
           inboxPath = js ''/inbox'',
           baseUrl = js ''http://c'',
           cacheIdleDays = 0,
           posix_dirname = (\<lambda>p. js ''/inbox''),
           cr_listDirectory = (\<lambda>d. Inr (Some [file0])),
           cr_downloadFile = (\<lambda>i. Inr \<lparr>ok = True, status = 200,
                                          content_type = Some (js ''image/png''),
                                          body = Some [1, 2, 3]\<rparr>),
           cr_uploadFile = (\<lambda>u. Inr (Str (js ''cf-2''))),
           cr_deleteFile = (\<lambda>p. Inr ()),
           tg_downloadFile = (\<lambda>i. Inr ([1, 2, 3], js ''application/octet-stream'')),
           tg_uploadFile = (\<lambda>u. Inr (js ''tg-1'', Some 42))\<rparr>"

text \<open>The same, with the file operations of Cloudreve failing.\<close>

definition env_cr_down :: env where
  "env_cr_down = env0\<lparr>cr_downloadFile := (\<lambda>i. Inl (UpstreamError (js ''down''))),
                      cr_uploadFile := (\<lambda>u. Inl (UpstreamError (js ''down''))),
                      cr_deleteFile := (\<lambda>p. Inl (UpstreamError (js ''down'')))\<rparr>"

text \<open>The same, with the download from Telegram failing.\<close>

definition env_tg_down :: env where
  "env_tg_down = env0\<lparr>tg_downloadFile := (\<lambda>i. Inl (UpstreamError (js ''down'')))\<rparr>"

text \<open>Two calls of \<open>upsertMapping\<close> for one path; the second file name ends in a
  surrogate pair.\<close>

definition first_record :: upsert_record where
  "first_record =
     \<lparr>cloudreveFileId = Some (js ''cf-7''), record_path = js ''/inbox/b.txt'',
      telegramFileId = js ''tg-7'', telegramMessageId = Some 7,
      fileName = Some (js ''b.txt''), fileSize = Some 9, mimeType = Some (js ''text/plain''),
      lastAccessed = Some 3000, createdAt = Some 3000, hasLocalCache = Some 1\<rparr>"

definition second_record :: upsert_record where
  "second_record =
     \<lparr>cloudreveFileId = Some (js ''cf-8''), record_path = js ''/inbox/b.txt'',
      telegramFileId = js ''tg-8'', telegramMessageId = None,
      fileName = Some [0x62, 0xD83D, 0xDE00], fileSize = None, mimeType = None,
      lastAccessed = Some 4000, createdAt = Some 4000, hasLocalCache = Some 0\<rparr>"

section \<open>Properties of the mapping table\<close>

lemmas examples = row0_def world0_def empty_world_def file0_def env0_def env_cr_down_def
  env_tg_down_def

lemma filter_unique:
  "distinct (map f rs) \<Longrightarrow> x \<in> set rs \<Longrightarrow> filter (\<lambda>r. f r = f x) rs = [x]"
proof (induction rs)
  case Nil
  then show ?case by simp
next
  case (Cons a rs)
  show ?case
  proof (cases "a = x")
    case True
    with Cons.prems have "\<forall>r \<in> set rs. f r \<noteq> f x" by (auto simp: image_iff)
    then have "filter (\<lambda>r. f r = f x) rs = []" by (simp add: filter_empty_conv)
    with True show ?thesis by simp
  next
    case False
    with Cons.prems have "x \<in> set rs" "f a \<noteq> f x" by (auto simp: image_iff)
    with Cons show ?thesis by simp
  qed
qed

lemma path_on_conflict_update [simp]:
  "cloudreve_path (on_conflict_update new row) = cloudreve_path row"
  by (simp add: on_conflict_update_def)

lemma map_path_insert_or_update:
  "map cloudreve_path (insert_or_update new rs) =
     (if cloudreve_path new \<in> set (map cloudreve_path rs) then map cloudreve_path rs
      else map cloudreve_path rs @ [cloudreve_path new])"
  by (auto simp: insert_or_update_def intro!: map_idI)

lemma find_map_update:
  assumes "\<And>r. cloudreve_path (g r) = cloudreve_path r"
  shows "find (\<lambda>row. cloudreve_path row = p)
           (map (\<lambda>row. if cloudreve_path row = q then g row else row) rs) =
         (if p = q then map_option g (find (\<lambda>row. cloudreve_path row = p) rs)
          else find (\<lambda>row. cloudreve_path row = p) rs)"
  using assms by (induction rs) auto

lemma find_snoc:
  "find P (xs @ [x]) = (case find P xs of None \<Rightarrow> (if P x then Some x else None) | Some y \<Rightarrow> Some y)"
  by (induction xs) auto

lemma find_path_None:
  "(find (\<lambda>row. cloudreve_path row = p) rs = None) = (p \<notin> set (map cloudreve_path rs))"
  by (auto simp: find_None_iff)

lemma find_insert_or_update:
  "find (\<lambda>row. cloudreve_path row = p) (insert_or_update new rs) =
     (if p = cloudreve_path new
      then Some (case find (\<lambda>row. cloudreve_path row = p) rs of
                   None \<Rightarrow> new | Some old \<Rightarrow> on_conflict_update new old)
      else find (\<lambda>row. cloudreve_path row = p) rs)"
proof (cases "cloudreve_path new \<in> set (map cloudreve_path rs)")
  case True
  then obtain old where "find (\<lambda>row. cloudreve_path row = cloudreve_path new) rs = Some old"
    using find_path_None [of "cloudreve_path new" rs] by auto
  with True show ?thesis
    by (simp add: insert_or_update_def find_map_update)
next
  case False
  then have "find (\<lambda>row. cloudreve_path row = cloudreve_path new) rs = None"
    by (simp add: find_path_None)
  with False show ?thesis
    by (auto simp: insert_or_update_def find_snoc split: option.splits)
qed


lemma rows_upsertMapping:
  "rows (upsertMapping e r w) = insert_or_update (bound_row e r w) (rows w)"
  by (simp add: upsertMapping_def now_def split: option.splits)

lemma path_bound_row [simp]: "cloudreve_path (bound_row e r w) = record_path r"
  by (simp add: bound_row_def)

lemma getMappingByPath_upsertMapping:
  "getMappingByPath p (upsertMapping e r w) =
     (if p = record_path r
      then Some (case getMappingByPath p w of
                   None \<Rightarrow> bound_row e r w
                 | Some old \<Rightarrow> on_conflict_update (bound_row e r w) old)
      else getMappingByPath p w)"
  by (simp add: getMappingByPath_def rows_upsertMapping find_insert_or_update)

lemma unique_paths_upsertMapping:
  "unique_paths w \<Longrightarrow> unique_paths (upsertMapping e r w)"
  by (simp add: unique_paths_def rows_upsertMapping map_path_insert_or_update)

lemma unique_paths_single:
  assumes "unique_paths w" and "getMappingByPath p w = Some x"
  shows "filter (\<lambda>row. cloudreve_path row = p) (rows w) = [x]"
proof -
  from assms(2) have "x \<in> set (rows w)" and "cloudreve_path x = p"
    by (auto simp: getMappingByPath_def find_Some_iff in_set_conv_nth)
  with assms(1) filter_unique [of cloudreve_path "rows w" x] show ?thesis
    by (simp add: unique_paths_def)
qed

text \<open>
  C5. For every set of stored mappings and every threshold \<open>T\<close>, \<open>listStale(T)\<close>
  (\<open>getStaleEntries\<close>) returns exactly the rows with \<open>cached = true\<close>
  (\<open>has_local_cache = 1\<close>) and \<open>lastAccessed\<close> strictly less than \<open>now - T\<close> and
  strictly greater than \<open>0\<close>; rows with \<open>cached = false\<close> or \<open>lastAccessed = 0\<close> are never
  returned. Here \<open>now\<close> is the reading of the clock that the call takes.
\<close>

theorem getStaleEntries_exact:
  "(r \<in> set (fst (getStaleEntries e T w))) =
     (r \<in> set (rows w) \<and> has_local_cache r = 1
        \<and> last_accessed r < clock e (reads w) - T \<and> 0 < last_accessed r)
   \<and> (has_local_cache r = 0 \<or> last_accessed r = 0
        \<longrightarrow> r \<notin> set (fst (getStaleEntries e T w)))"
  by (auto simp: getStaleEntries_def now_def)

theorem getStaleEntries_exact_witness:
  "row0\<lparr>has_local_cache := 1\<rparr>
     \<in> set (fst (getStaleEntries env0 60
                 (world0\<lparr>rows := [row0\<lparr>has_local_cache := 1\<rparr>,
                                   row0\<lparr>cloudreve_path := js ''/inbox/b.txt''\<rparr>]\<rparr>)))
   \<and> has_local_cache (row0\<lparr>cloudreve_path := js ''/inbox/b.txt''\<rparr>) = 0
   \<and> row0\<lparr>cloudreve_path := js ''/inbox/b.txt''\<rparr>
     \<notin> set (fst (getStaleEntries env0 60
                 (world0\<lparr>rows := [row0\<lparr>has_local_cache := 1\<rparr>,
                                   row0\<lparr>cloudreve_path := js ''/inbox/b.txt''\<rparr>]\<rparr>)))"
  using getStaleEntries_exact [of "row0\<lparr>has_local_cache := 1\<rparr>" env0 60
          "world0\<lparr>rows := [row0\<lparr>has_local_cache := 1\<rparr>,
                            row0\<lparr>cloudreve_path := js ''/inbox/b.txt''\<rparr>]\<rparr>"]
        getStaleEntries_exact [of "row0\<lparr>cloudreve_path := js ''/inbox/b.txt''\<rparr>" env0 60
          "world0\<lparr>rows := [row0\<lparr>has_local_cache := 1\<rparr>,
                            row0\<lparr>cloudreve_path := js ''/inbox/b.txt''\<rparr>]\<rparr>"]
  by (simp add: examples)

lemma upsert_twice_bound:
  assumes "unique_paths w" and "record_path r2 = record_path r1"
  shows "filter (\<lambda>row. cloudreve_path row = record_path r1)
           (rows (upsertMapping e r2 (upsertMapping e r1 w))) =
         [\<lparr>cloudreve_file_id = cloudreveFileId r2,
           cloudreve_path = record_path r1,
           telegram_file_id = telegramFileId r2,
           telegram_message_id = telegramMessageId r2,
           file_name = fileName r2,
           file_size = nullish (fileSize r2) 0,
           mime_type = mimeType r2,
           last_accessed = nullish (lastAccessed r2) 0,
           created_at = (case getMappingByPath (record_path r1) w of
                           Some old \<Rightarrow> created_at old
                         | None \<Rightarrow> nullish (createdAt r1) (clock e (reads w))),
           has_local_cache = nullish (hasLocalCache r2) 1\<rparr>]"
proof -
  let ?w1 = "upsertMapping e r1 w"
  let ?w2 = "upsertMapping e r2 ?w1"
  have u: "unique_paths ?w2"
    using assms(1) by (simp add: unique_paths_upsertMapping)
  have g: "getMappingByPath (record_path r1) ?w2 =
        Some (on_conflict_update (bound_row e r2 ?w1)
               (case getMappingByPath (record_path r1) w of
                  None \<Rightarrow> bound_row e r1 w
                | Some old \<Rightarrow> on_conflict_update (bound_row e r1 w) old))"
    using assms(2) by (simp add: getMappingByPath_upsertMapping)
  have "on_conflict_update (bound_row e r2 ?w1)
               (case getMappingByPath (record_path r1) w of
                  None \<Rightarrow> bound_row e r1 w
                | Some old \<Rightarrow> on_conflict_update (bound_row e r1 w) old) =
        \<lparr>cloudreve_file_id = cloudreveFileId r2,
           cloudreve_path = record_path r1,
           telegram_file_id = telegramFileId r2,
           telegram_message_id = telegramMessageId r2,
           file_name = fileName r2,
           file_size = nullish (fileSize r2) 0,
           mime_type = mimeType r2,
           last_accessed = nullish (lastAccessed r2) 0,
           created_at = (case getMappingByPath (record_path r1) w of
                           Some old \<Rightarrow> created_at old
                         | None \<Rightarrow> nullish (createdAt r1) (clock e (reads w))),
           has_local_cache = nullish (hasLocalCache r2) 1\<rparr>"
  proof (cases "getMappingByPath (record_path r1) w")
    case None
    then show ?thesis by (simp add: on_conflict_update_def bound_row_def now_def)
  next
    case (Some old)
    then have "cloudreve_path old = record_path r1"
      by (auto simp: getMappingByPath_def find_Some_iff)
    with Some show ?thesis by (simp add: on_conflict_update_def bound_row_def now_def)
  qed
  with g unique_paths_single [OF u] show ?thesis by simp
qed

text \<open>
  C3, as stated: after two \<open>upsert\<close> calls with the same path, every field of the one
  stored row but \<open>createdAt\<close> equals the second call's value. It fails for a value that
  is not well-formed UTF-16: the second call passes a file name that ends in the first
  half of a surrogate pair, and the row stores U+FFFD in its place.
\<close>

theorem upsert_twice_counterexample:
  "fileName (second_record\<lparr>fileName := Some [0x62, 0xD83D]\<rparr>) = Some [0x62, 0xD83D]
   \<and> record_path (second_record\<lparr>fileName := Some [0x62, 0xD83D]\<rparr>) = record_path first_record
   \<and> map file_name
        (filter (\<lambda>row. cloudreve_path row = record_path first_record)
           (rows (upsertMapping_utf8 env0 (second_record\<lparr>fileName := Some [0x62, 0xD83D]\<rparr>)
                    (upsertMapping_utf8 env0 first_record world0)))) =
       [Some [0x62, 0xFFFD]]"
  by code_simp

text \<open>
  C3, amended. For every store state and every pair of \<open>upsert\<close> calls with the same
  path but different field values, where the strings of the second call are well-formed
  UTF-16, after both calls exactly one stored row exists for that path, and every field
  of that row equals the second call's value except \<open>createdAt\<close>, which keeps the value
  of the earliest insert: that of the row the path had before the two calls, or else
  that of the first call. Whatever the strings are, there is exactly one row for the path
  as stored, and it holds the second call's values as stored. The store state satisfies
  the unique index.
\<close>

theorem upsert_twice_single_row:
  assumes u: "unique_paths w" and p: "record_path r2 = record_path r1"
  shows "filter (\<lambda>row. cloudreve_path row = to_text (record_path r1))
           (rows (upsertMapping_utf8 e r2 (upsertMapping_utf8 e r1 w))) =
         [\<lparr>cloudreve_file_id = map_option to_text (cloudreveFileId r2),
           cloudreve_path = to_text (record_path r1),
           telegram_file_id = to_text (telegramFileId r2),
           telegram_message_id = telegramMessageId r2,
           file_name = map_option to_text (fileName r2),
           file_size = nullish (fileSize r2) 0,
           mime_type = map_option to_text (mimeType r2),
           last_accessed = nullish (lastAccessed r2) 0,
           created_at = (case getMappingByPath (to_text (record_path r1)) w of
                           Some old \<Rightarrow> created_at old
                         | None \<Rightarrow> nullish (createdAt r1) (clock e (reads w))),
           has_local_cache = nullish (hasLocalCache r2) 1\<rparr>]
     \<and> (to_text (record_path r2) = record_path r2
          \<and> map_option to_text (cloudreveFileId r2) = cloudreveFileId r2
          \<and> to_text (telegramFileId r2) = telegramFileId r2
          \<and> map_option to_text (fileName r2) = fileName r2
          \<and> map_option to_text (mimeType r2) = mimeType r2
        \<longrightarrow> filter (\<lambda>row. cloudreve_path row = record_path r1)
              (rows (upsertMapping_utf8 e r2 (upsertMapping_utf8 e r1 w))) =
            [\<lparr>cloudreve_file_id = cloudreveFileId r2,
              cloudreve_path = record_path r1,
              telegram_file_id = telegramFileId r2,
              telegram_message_id = telegramMessageId r2,
              file_name = fileName r2,
              file_size = nullish (fileSize r2) 0,
              mime_type = mimeType r2,
              last_accessed = nullish (lastAccessed r2) 0,
              created_at = (case getMappingByPath (record_path r1) w of
                              Some old \<Rightarrow> created_at old
                            | None \<Rightarrow> nullish (createdAt r1) (clock e (reads w))),
              has_local_cache = nullish (hasLocalCache r2) 1\<rparr>])"
proof -
  have same: "record_path (bind_text r2) = record_path (bind_text r1)"
    using p by (simp add: bind_text_def)
  have f: "cloudreveFileId (bind_text r2) = map_option to_text (cloudreveFileId r2)"
    "record_path (bind_text r1) = to_text (record_path r1)"
    "telegramFileId (bind_text r2) = to_text (telegramFileId r2)"
    "telegramMessageId (bind_text r2) = telegramMessageId r2"
    "fileName (bind_text r2) = map_option to_text (fileName r2)"
    "fileSize (bind_text r2) = fileSize r2"
    "mimeType (bind_text r2) = map_option to_text (mimeType r2)"
    "lastAccessed (bind_text r2) = lastAccessed r2"
    "createdAt (bind_text r1) = createdAt r1"
    "hasLocalCache (bind_text r2) = hasLocalCache r2"
    by (simp_all add: bind_text_def)
  have general: "filter (\<lambda>row. cloudreve_path row = to_text (record_path r1))
           (rows (upsertMapping_utf8 e r2 (upsertMapping_utf8 e r1 w))) =
         [\<lparr>cloudreve_file_id = map_option to_text (cloudreveFileId r2),
           cloudreve_path = to_text (record_path r1),
           telegram_file_id = to_text (telegramFileId r2),
           telegram_message_id = telegramMessageId r2,
           file_name = map_option to_text (fileName r2),
           file_size = nullish (fileSize r2) 0,
           mime_type = map_option to_text (mimeType r2),
           last_accessed = nullish (lastAccessed r2) 0,
           created_at = (case getMappingByPath (to_text (record_path r1)) w of
                           Some old \<Rightarrow> created_at old
                         | None \<Rightarrow> nullish (createdAt r1) (clock e (reads w))),
           has_local_cache = nullish (hasLocalCache r2) 1\<rparr>]"
    using upsert_twice_bound [OF u same, of e]
    by (simp only: upsertMapping_utf8_def f)
  show ?thesis
  proof (intro conjI impI)
    show "filter (\<lambda>row. cloudreve_path row = to_text (record_path r1))
           (rows (upsertMapping_utf8 e r2 (upsertMapping_utf8 e r1 w))) =
         [\<lparr>cloudreve_file_id = map_option to_text (cloudreveFileId r2),
           cloudreve_path = to_text (record_path r1),
           telegram_file_id = to_text (telegramFileId r2),
           telegram_message_id = telegramMessageId r2,
           file_name = map_option to_text (fileName r2),
           file_size = nullish (fileSize r2) 0,
           mime_type = map_option to_text (mimeType r2),
           last_accessed = nullish (lastAccessed r2) 0,
           created_at = (case getMappingByPath (to_text (record_path r1)) w of
                           Some old \<Rightarrow> created_at old
                         | None \<Rightarrow> nullish (createdAt r1) (clock e (reads w))),
           has_local_cache = nullish (hasLocalCache r2) 1\<rparr>]"
      by (rule general)
  next
    assume wf: "to_text (record_path r2) = record_path r2
          \<and> map_option to_text (cloudreveFileId r2) = cloudreveFileId r2
          \<and> to_text (telegramFileId r2) = telegramFileId r2
          \<and> map_option to_text (fileName r2) = fileName r2
          \<and> map_option to_text (mimeType r2) = mimeType r2"
    then have "to_text (record_path r1) = record_path r1"
      using p by simp
    with general wf show "filter (\<lambda>row. cloudreve_path row = record_path r1)
              (rows (upsertMapping_utf8 e r2 (upsertMapping_utf8 e r1 w))) =
            [\<lparr>cloudreve_file_id = cloudreveFileId r2,
              cloudreve_path = record_path r1,
              telegram_file_id = telegramFileId r2,
              telegram_message_id = telegramMessageId r2,
              file_name = fileName r2,
              file_size = nullish (fileSize r2) 0,
              mime_type = mimeType r2,
              last_accessed = nullish (lastAccessed r2) 0,
              created_at = (case getMappingByPath (record_path r1) w of
                              Some old \<Rightarrow> created_at old
                            | None \<Rightarrow> nullish (createdAt r1) (clock e (reads w))),
              has_local_cache = nullish (hasLocalCache r2) 1\<rparr>]"
      by simp
  qed
qed

theorem upsert_twice_single_row_witness:
  "unique_paths world0
   \<and> record_path second_record = record_path first_record
   \<and> to_text (js ''/inbox/b.txt'') = js ''/inbox/b.txt''
   \<and> to_text [0x62, 0xD83D, 0xDE00] = [0x62, 0xD83D, 0xDE00]
   \<and> filter (\<lambda>row. cloudreve_path row = js ''/inbox/b.txt'')
       (rows (upsertMapping_utf8 env0 second_record (upsertMapping_utf8 env0 first_record world0))) =
     [\<lparr>cloudreve_file_id = Some (js ''cf-8''), cloudreve_path = js ''/inbox/b.txt'',
       telegram_file_id = js ''tg-8'', telegram_message_id = None,
       file_name = Some [0x62, 0xD83D, 0xDE00], file_size = 0, mime_type = None,
       last_accessed = 4000, created_at = 3000, has_local_cache = 0\<rparr>]"
proof -
  have u: "unique_paths world0"
    by (simp add: unique_paths_def examples)
  have p: "record_path second_record = record_path first_record"
    by (simp add: first_record_def second_record_def)
  have t: "to_text (js ''/inbox/b.txt'') = js ''/inbox/b.txt''"
    "to_text [0x62, 0xD83D, 0xDE00] = [0x62, 0xD83D, 0xDE00]"
    by code_simp+
  have wf: "to_text (record_path second_record) = record_path second_record
      \<and> map_option to_text (cloudreveFileId second_record) = cloudreveFileId second_record
      \<and> to_text (telegramFileId second_record) = telegramFileId second_record
      \<and> map_option to_text (fileName second_record) = fileName second_record
      \<and> map_option to_text (mimeType second_record) = mimeType second_record"
    by code_simp
  from upsert_twice_single_row [OF u p, of env0] wf
  have "filter (\<lambda>row. cloudreve_path row = record_path first_record)
              (rows (upsertMapping_utf8 env0 second_record (upsertMapping_utf8 env0 first_record world0))) =
            [\<lparr>cloudreve_file_id = cloudreveFileId second_record,
              cloudreve_path = record_path first_record,
              telegram_file_id = telegramFileId second_record,
              telegram_message_id = telegramMessageId second_record,
              file_name = fileName second_record,
              file_size = nullish (fileSize second_record) 0,
              mime_type = mimeType second_record,
              last_accessed = nullish (lastAccessed second_record) 0,
              created_at = (case getMappingByPath (record_path first_record) world0 of
                              Some old \<Rightarrow> created_at old
                            | None \<Rightarrow> nullish (createdAt first_record) (clock env0 (reads world0))),
              has_local_cache = nullish (hasLocalCache second_record) 1\<rparr>]"
    by blast
  then have "filter (\<lambda>row. cloudreve_path row = js ''/inbox/b.txt'')
       (rows (upsertMapping_utf8 env0 second_record (upsertMapping_utf8 env0 first_record world0))) =
     [\<lparr>cloudreve_file_id = Some (js ''cf-8''), cloudreve_path = js ''/inbox/b.txt'',
       telegram_file_id = js ''tg-8'', telegram_message_id = None,
       file_name = Some [0x62, 0xD83D, 0xDE00], file_size = 0, mime_type = None,
       last_accessed = 4000, created_at = 3000, has_local_cache = 0\<rparr>]"
    by (simp add: first_record_def second_record_def examples getMappingByPath_def nullish_def js_def)
  with u p t show ?thesis by blast
qed

section \<open>Properties of the file-name sanitizer\<close>

lemma underscore_safe [simp]: "\<not> unsafe_char underscore" "\<not> js_whitespace underscore"
  by (simp_all add: unsafe_char_def js_whitespace_def underscore_def)

lemma slash_unsafe [simp]: "unsafe_char 0x2F"
  by (simp add: unsafe_char_def)






lemma js_file_nonempty [simp]: "js ''file'' \<noteq> []"
  by (simp add: js_def)









section \<open>Properties of the download proxy\<close>

lemma getMappingByPath_call [simp]: "getMappingByPath p (call ev w) = getMappingByPath p w"
  by (simp add: getMappingByPath_def call_def)

lemma reads_call [simp]: "reads (call ev w) = reads w"
  by (simp add: call_def)

lemma rows_call [simp]: "rows (call ev w) = rows w"
  by (simp add: call_def)

lemma getMappingByPath_touchMapping:
  "getMappingByPath p (touchMapping e q w) =
     (if p = q then map_option (\<lambda>row. row\<lparr>last_accessed := clock e (reads w)\<rparr>) (getMappingByPath p w)
      else getMappingByPath p w)"
  by (simp add: getMappingByPath_def touchMapping_def now_def find_map_update)

lemma reads_touchMapping [simp]: "reads (touchMapping e q w) = Suc (reads w)"
  by (simp add: touchMapping_def now_def)

lemma getMappingByPath_markEvicted:
  "getMappingByPath p (markEvicted q w) =
     (if p = q then map_option (\<lambda>row. row\<lparr>has_local_cache := 0\<rparr>) (getMappingByPath p w)
      else getMappingByPath p w)"
  by (simp add: getMappingByPath_def markEvicted_def find_map_update)

lemma path_of_found: "getMappingByPath p w = Some row \<Longrightarrow> cloudreve_path row = p"
  by (auto simp: getMappingByPath_def find_Some_iff)

lemma proxy_cached_world:
  "getMappingByPath p (snd (proxy_cached e mapping w)) = getMappingByPath p w"
  "reads (snd (proxy_cached e mapping w)) = reads w"
  by (auto simp: proxy_cached_def Let_def split: sum.splits option.splits)

lemma proxy_cached_evicted:
  "has_local_cache mapping = 0 \<Longrightarrow> proxy_cached e mapping w = (None, w)"
  by (simp add: proxy_cached_def)

text \<open>
  C2. For every path that has a mapping, if during the restore step of \<open>downloadProxy\<close>
  the upload to the primary store throws, the call still returns the bytes just fetched
  from the secondary store (it does not raise), and afterwards the stored mapping for
  that path has \<open>cached = false\<close>: it is the mapping before the call, touched and marked
  evicted. The restore step is entered when case A serves nothing.
\<close>

theorem restore_upload_failure:
  assumes m: "getMappingByPath path w = Some mapping"
    and a: "fst (proxy_cached e mapping (touchMapping e path w)) = None"
    and d: "tg_downloadFile e (telegram_file_id mapping) = Inr (buf, tgMime)"
    and u: "cr_uploadFile e
              \<lparr>filePath = path, up_fileName = or_str (file_name mapping) (js ''file''),
               up_fileSize = int (length buf), up_mimeType = or_str (mime_type mapping) tgMime,
               up_data = buf\<rparr> = Inl uploadErr"
  shows "fst (downloadProxy e path w) =
           Inr \<lparr>buffer = buf, served_fileName = Some (or_str (file_name mapping) (js ''file'')),
                served_mimeType = or_str (mime_type mapping) tgMime\<rparr>
         \<and> getMappingByPath path (snd (downloadProxy e path w)) =
           Some (mapping\<lparr>last_accessed := clock e (reads w), has_local_cache := 0\<rparr>)"
proof -
  obtain w2 where c: "proxy_cached e mapping (touchMapping e path w) = (None, w2)"
    using a by (cases "proxy_cached e mapping (touchMapping e path w)") auto
  then have w2: "getMappingByPath path w2 = Some (mapping\<lparr>last_accessed := clock e (reads w)\<rparr>)"
    using proxy_cached_world(1) [of path e mapping "touchMapping e path w"] m
    by (simp add: getMappingByPath_touchMapping)
  have r: "proxy_restore e path mapping w2 =
        (Inr \<lparr>buffer = buf, served_fileName = Some (or_str (file_name mapping) (js ''file'')),
                served_mimeType = or_str (mime_type mapping) tgMime\<rparr>,
         markEvicted path (call (CrUpload \<lparr>filePath = path, up_fileName = or_str (file_name mapping) (js ''file''),
               up_fileSize = int (length buf), up_mimeType = or_str (mime_type mapping) tgMime,
               up_data = buf\<rparr>) (call (EnsureDirectory (or_str (Some (posix_dirname e path)) (js ''/'')))
                 (call (TgDownload (telegram_file_id mapping)) w2))))"
    using d u by (simp add: proxy_restore_def Let_def)
  have "downloadProxy e path w = proxy_restore e path mapping w2"
    using m c by (simp add: downloadProxy_def)
  with r w2 show ?thesis
    by (simp add: getMappingByPath_markEvicted)
qed

theorem restore_upload_failure_witness:
  "getMappingByPath (js ''/inbox/a.txt'') (world0\<lparr>rows := [row0\<lparr>has_local_cache := 1\<rparr>]\<rparr>) =
     Some (row0\<lparr>has_local_cache := 1\<rparr>)
   \<and> fst (downloadProxy env_cr_down (js ''/inbox/a.txt'')
            (world0\<lparr>rows := [row0\<lparr>has_local_cache := 1\<rparr>]\<rparr>)) =
       Inr \<lparr>buffer = [1, 2, 3], served_fileName = Some (js ''a.txt''),
            served_mimeType = js ''text/plain''\<rparr>
   \<and> getMappingByPath (js ''/inbox/a.txt'')
         (snd (downloadProxy env_cr_down (js ''/inbox/a.txt'')
                (world0\<lparr>rows := [row0\<lparr>has_local_cache := 1\<rparr>]\<rparr>))) =
       Some (row0\<lparr>last_accessed := 1000, has_local_cache := 0\<rparr>)"
proof -
  let ?w = "world0\<lparr>rows := [row0\<lparr>has_local_cache := 1\<rparr>]\<rparr>"
  let ?m = "row0\<lparr>has_local_cache := 1\<rparr>"
  have m: "getMappingByPath (js ''/inbox/a.txt'') ?w = Some ?m"
    by (simp add: getMappingByPath_def examples)
  have a: "fst (proxy_cached env_cr_down ?m (touchMapping env_cr_down (js ''/inbox/a.txt'') ?w)) = None"
    by (simp add: proxy_cached_def examples)
  have d: "tg_downloadFile env_cr_down (telegram_file_id ?m) =
             Inr ([1, 2, 3], js ''application/octet-stream'')"
    by (simp add: examples)
  have u: "cr_uploadFile env_cr_down
             \<lparr>filePath = js ''/inbox/a.txt'', up_fileName = or_str (file_name ?m) (js ''file''),
              up_fileSize = int (length [1::8 word, 2, 3]),
              up_mimeType = or_str (mime_type ?m) (js ''application/octet-stream''),
              up_data = [1, 2, 3]\<rparr> = Inl (UpstreamError (js ''down''))"
    by (simp add: examples)
  from restore_upload_failure [OF m a d u] m show ?thesis
    by (simp add: examples or_str_def js_def)
qed

text \<open>
  C1, as stated: for every mapping whose stored \<open>cached\<close> flag is false and whose
  \<open>secondaryId\<close> resolves to content in the secondary store, after \<open>downloadProxy(path)\<close>
  the mapping has \<open>cached = true\<close> and a new \<open>primaryId\<close>, and the call returns that
  content's MIME type. It fails when the upload to the primary store throws: the bytes
  are served and the mapping stays evicted; and the MIME type served is the one the
  mapping stores, \<open>text/plain\<close>, where the secondary store reports
  \<open>application/octet-stream\<close>.
\<close>

theorem restore_on_miss_counterexample:
  "getMappingByPath (js ''/inbox/a.txt'') world0 = Some row0
   \<and> has_local_cache row0 = 0
   \<and> tg_downloadFile env_cr_down (telegram_file_id row0) =
       Inr ([1, 2, 3], js ''application/octet-stream'')
   \<and> fst (downloadProxy env_cr_down (js ''/inbox/a.txt'') world0) =
       Inr \<lparr>buffer = [1, 2, 3], served_fileName = Some (js ''a.txt''),
            served_mimeType = js ''text/plain''\<rparr>
   \<and> getMappingByPath (js ''/inbox/a.txt'')
         (snd (downloadProxy env_cr_down (js ''/inbox/a.txt'') world0)) =
       Some (row0\<lparr>last_accessed := 1000\<rparr>)
   \<and> has_local_cache (row0\<lparr>last_accessed := 1000\<rparr>) = 0"
  by (simp add: examples downloadProxy_def proxy_cached_def proxy_restore_def
      getMappingByPath_def touchMapping_def markEvicted_def call_def now_def or_str_def js_def
      Let_def)

text \<open>
  C1, amended. For every mapping whose stored \<open>cached\<close> flag is false and whose
  \<open>secondaryId\<close> resolves to content in the secondary store, if the upload to the primary
  store succeeds, \<open>downloadProxy(path)\<close> returns that content's bytes, the mapping's MIME
  type (the secondary store's when the mapping has none) and the mapping's file name
  (\<open>file\<close> when it has none), and afterwards the mapping for the path has \<open>cached = true\<close>
  and a \<open>primaryId\<close> equal to the id returned by the upload, while \<open>secondaryId\<close>,
  \<open>secondaryRef\<close> and \<open>createdAt\<close> are unchanged.
\<close>

theorem restore_on_miss:
  assumes m: "getMappingByPath path w = Some mapping"
    and a: "has_local_cache mapping = 0"
    and d: "tg_downloadFile e (telegram_file_id mapping) = Inr (buf, tgMime)"
    and u: "cr_uploadFile e
              \<lparr>filePath = path, up_fileName = or_str (file_name mapping) (js ''file''),
               up_fileSize = int (length buf), up_mimeType = or_str (mime_type mapping) tgMime,
               up_data = buf\<rparr> = Inr newCloudreveId"
  shows "fst (downloadProxy e path w) =
           Inr \<lparr>buffer = buf, served_fileName = Some (or_str (file_name mapping) (js ''file'')),
                served_mimeType = or_str (mime_type mapping) tgMime\<rparr>
         \<and> getMappingByPath path (snd (downloadProxy e path w)) =
           Some \<lparr>cloudreve_file_id = nullable newCloudreveId,
                 cloudreve_path = path,
                 telegram_file_id = telegram_file_id mapping,
                 telegram_message_id = telegram_message_id mapping,
                 file_name = Some (or_str (file_name mapping) (js ''file'')),
                 file_size = int (length buf),
                 mime_type = Some (or_str (mime_type mapping) tgMime),
                 last_accessed = clock e (Suc (reads w)),
                 created_at = created_at mapping,
                 has_local_cache = 1\<rparr>"
proof -
  let ?w1 = "touchMapping e path w"
  let ?up = "\<lparr>filePath = path, up_fileName = or_str (file_name mapping) (js ''file''),
               up_fileSize = int (length buf), up_mimeType = or_str (mime_type mapping) tgMime,
               up_data = buf\<rparr>"
  let ?w3 = "call (CrUpload ?up) (call (EnsureDirectory (or_str (Some (posix_dirname e path)) (js ''/'')))
                 (call (TgDownload (telegram_file_id mapping)) ?w1))"
  let ?rec = "\<lparr>cloudreveFileId = nullable newCloudreveId,
                        record_path = path,
                        telegramFileId = telegram_file_id mapping,
                        telegramMessageId = telegram_message_id mapping,
                        fileName = Some (or_str (file_name mapping) (js ''file'')),
                        fileSize = Some (int (length buf)),
                        mimeType = Some (or_str (mime_type mapping) tgMime),
                        lastAccessed = Some (clock e (Suc (reads w))),
                        createdAt = Some (created_at mapping),
                        hasLocalCache = Some 1\<rparr>"
  have w1: "getMappingByPath path ?w1 = Some (mapping\<lparr>last_accessed := clock e (reads w)\<rparr>)"
    using m by (simp add: getMappingByPath_touchMapping)
  have r: "proxy_restore e path mapping ?w1 =
        (Inr \<lparr>buffer = buf, served_fileName = Some (or_str (file_name mapping) (js ''file'')),
                served_mimeType = or_str (mime_type mapping) tgMime\<rparr>,
         upsertMapping e ?rec (snd (now e ?w3)))"
    using d u by (simp add: proxy_restore_def Let_def now_def)
  have dp: "downloadProxy e path w = proxy_restore e path mapping ?w1"
    using m a by (simp add: downloadProxy_def proxy_cached_evicted)
  have g: "getMappingByPath path (snd (now e ?w3)) = Some (mapping\<lparr>last_accessed := clock e (reads w)\<rparr>)"
    using w1 by (simp add: now_def getMappingByPath_def call_def)
  have "getMappingByPath path (upsertMapping e ?rec (snd (now e ?w3))) =
          Some (on_conflict_update (bound_row e ?rec (snd (now e ?w3))) (mapping\<lparr>last_accessed := clock e (reads w)\<rparr>))"
    using g by (simp add: getMappingByPath_upsertMapping)
  also have "on_conflict_update (bound_row e ?rec (snd (now e ?w3))) (mapping\<lparr>last_accessed := clock e (reads w)\<rparr>) =
      \<lparr>cloudreve_file_id = nullable newCloudreveId,
                 cloudreve_path = path,
                 telegram_file_id = telegram_file_id mapping,
                 telegram_message_id = telegram_message_id mapping,
                 file_name = Some (or_str (file_name mapping) (js ''file'')),
                 file_size = int (length buf),
                 mime_type = Some (or_str (mime_type mapping) tgMime),
                 last_accessed = clock e (Suc (reads w)),
                 created_at = created_at mapping,
                 has_local_cache = 1\<rparr>"
    using path_of_found [OF m] by (simp add: on_conflict_update_def bound_row_def nullish_def)
  finally show ?thesis using dp r by simp
qed

theorem restore_on_miss_witness:
  "getMappingByPath (js ''/inbox/a.txt'') world0 = Some row0
   \<and> has_local_cache row0 = 0
   \<and> fst (downloadProxy env0 (js ''/inbox/a.txt'') world0) =
       Inr \<lparr>buffer = [1, 2, 3], served_fileName = Some (js ''a.txt''),
            served_mimeType = js ''text/plain''\<rparr>
   \<and> getMappingByPath (js ''/inbox/a.txt'') (snd (downloadProxy env0 (js ''/inbox/a.txt'') world0)) =
       Some (row0\<lparr>cloudreve_file_id := Some (js ''cf-2''), last_accessed := 2000,
                  has_local_cache := 1\<rparr>)"
proof -
  have m: "getMappingByPath (js ''/inbox/a.txt'') world0 = Some row0"
    by (simp add: getMappingByPath_def examples)
  have a: "has_local_cache row0 = 0"
    by (simp add: examples)
  have d: "tg_downloadFile env0 (telegram_file_id row0) =
             Inr ([1, 2, 3], js ''application/octet-stream'')"
    by (simp add: examples)
  have u: "cr_uploadFile env0
             \<lparr>filePath = js ''/inbox/a.txt'', up_fileName = or_str (file_name row0) (js ''file''),
              up_fileSize = int (length [1::8 word, 2, 3]),
              up_mimeType = or_str (mime_type row0) (js ''application/octet-stream''),
              up_data = [1, 2, 3]\<rparr> = Inr (Str (js ''cf-2''))"
    by (simp add: examples)
  from restore_on_miss [OF m a d u] m a show ?thesis
    by (simp add: examples or_str_def js_def nullable_def)
qed

text \<open>
  C4, as stated: in the cache-hit branch of \<open>downloadProxy\<close> the returned MIME type
  prefers the mapping's stored metadata and falls back to the live response headers. It
  fails for a mapping that stores \<open>text/plain\<close> when the response says \<open>image/png\<close>.
\<close>

theorem cache_hit_mime_counterexample:
  "getMappingByPath (js ''/inbox/a.txt'') (world0\<lparr>rows := [row0\<lparr>has_local_cache := 1\<rparr>]\<rparr>) =
     Some (row0\<lparr>has_local_cache := 1\<rparr>)
   \<and> mime_type (row0\<lparr>has_local_cache := 1\<rparr>) = Some (js ''text/plain'')
   \<and> fst (downloadProxy env0 (js ''/inbox/a.txt'')
            (world0\<lparr>rows := [row0\<lparr>has_local_cache := 1\<rparr>]\<rparr>)) =
       Inr \<lparr>buffer = [1, 2, 3], served_fileName = Some (js ''a.txt''),
            served_mimeType = js ''image/png''\<rparr>"
  by (simp add: examples downloadProxy_def proxy_cached_def getMappingByPath_def
      touchMapping_def call_def now_def or_str_def js_def Let_def)

text \<open>
  C4, amended. In the cache-hit branch of \<open>downloadProxy\<close>, when the fetch from the
  primary store succeeds, the returned MIME type is the \<open>content-type\<close> header of the
  live response; it falls back to the mapping's stored MIME type only when that header is
  absent or empty, and to \<open>application/octet-stream\<close> when both are.
\<close>

theorem cache_hit_mime:
  assumes m: "getMappingByPath path w = Some mapping"
    and c: "has_local_cache mapping \<noteq> 0"
    and d: "cr_downloadFile e (column_value (cloudreve_file_id mapping)) = Inr fileRes"
    and k: "ok fileRes" and b: "body fileRes = Some buf"
  shows "fst (downloadProxy e path w) =
           Inr \<lparr>buffer = buf, served_fileName = file_name mapping,
                served_mimeType =
                  (case content_type fileRes of
                     Some header \<Rightarrow>
                       if header \<noteq> [] then header
                       else or_str (mime_type mapping) (js ''application/octet-stream'')
                   | None \<Rightarrow> or_str (mime_type mapping) (js ''application/octet-stream''))\<rparr>"
  using assms by (simp add: downloadProxy_def proxy_cached_def Let_def or_str_def split: option.splits)

theorem cache_hit_mime_witness:
  "fst (downloadProxy
          (env0\<lparr>cr_downloadFile := (\<lambda>i. Inr \<lparr>ok = True, status = 200, content_type = None,
                                               body = Some [7, 8]\<rparr>)\<rparr>)
          (js ''/inbox/a.txt'') (world0\<lparr>rows := [row0\<lparr>has_local_cache := 1\<rparr>]\<rparr>)) =
     Inr \<lparr>buffer = [7, 8], served_fileName = Some (js ''a.txt''),
          served_mimeType = js ''text/plain''\<rparr>"
proof -
  let ?e = "env0\<lparr>cr_downloadFile := (\<lambda>i. Inr \<lparr>ok = True, status = 200, content_type = None,
                                               body = Some [7, 8]\<rparr>)\<rparr>"
  let ?w = "world0\<lparr>rows := [row0\<lparr>has_local_cache := 1\<rparr>]\<rparr>"
  let ?m = "row0\<lparr>has_local_cache := 1\<rparr>"
  have m: "getMappingByPath (js ''/inbox/a.txt'') ?w = Some ?m"
    by (simp add: getMappingByPath_def examples)
  have c: "has_local_cache ?m \<noteq> 0"
    by simp
  have d: "cr_downloadFile ?e (column_value (cloudreve_file_id ?m)) =
             Inr \<lparr>ok = True, status = 200, content_type = None, body = Some [7, 8]\<rparr>"
    by simp
  from cache_hit_mime [OF m c d, of "[7, 8]"] show ?thesis
    by (simp add: examples or_str_def js_def)
qed

section \<open>Properties of the sync engine\<close>

lemma find_append_Some:
  "find P xs = Some x \<Longrightarrow> find P (xs @ ys) = Some x"
  by (induction xs) auto

lemma sync_file_skip:
  "getMappingByPath (join_path td (obj_name f)) w = Some m \<Longrightarrow> sync_file e td f w = (None, w)"
  by (simp add: sync_file_def)

lemma sync_file_cases:
  assumes "sync_file e td f w = (b, w')"
  shows "(b = None \<and> w' = w \<and> getMappingByPath (join_path td (obj_name f)) w \<noteq> None)
       \<or> (b = Some False \<and> rows w' = rows w \<and> reads w' = reads w)
       \<or> (b = Some True \<and> reads w' = Suc (Suc (reads w))
           \<and> (\<exists>new. rows w' = rows w @ [new] \<and> has_local_cache new = 1
                 \<and> last_accessed new = clock e (reads w)
                 \<and> cloudreve_path new = join_path td (obj_name f)))"
proof (cases "getMappingByPath (join_path td (obj_name f)) w")
  case (Some m)
  with assms show ?thesis by (simp add: sync_file_def)
next
  case None
  then have n: "join_path td (obj_name f) \<notin> set (map cloudreve_path (rows w))"
    by (simp add: getMappingByPath_def find_path_None)
  show ?thesis
    using assms None n
    by (auto simp: sync_file_def Let_def now_def call_def rows_upsertMapping insert_or_update_def
        upsertMapping_def bound_row_def nullish_def
        split: sum.splits option.splits if_splits prod.splits)
qed


lemma sync_loop_step:
  assumes "sync_loop e td (f # fs) acc w = (res, w')"
  obtains b w1 acc1 where "sync_file e td f w = (b, w1)"
    and "sync_loop e td fs acc1 w1 = (res, w')"
    and "errors acc \<le> errors acc1"
    and "b = Some False \<longrightarrow> errors acc < errors acc1"
proof -
  obtain b w1 where s: "sync_file e td f w = (b, w1)"
    by (cases "sync_file e td f w")
  show thesis
  proof (cases b)
    case None
    with assms s that [of b w1 acc] show ?thesis by simp
  next
    case (Some c)
    show ?thesis
    proof (cases c)
      case True
      with Some assms s that [of b w1 "acc\<lparr>synced := Suc (synced acc)\<rparr>"] show ?thesis by simp
    next
      case False
      with Some assms s that [of b w1 "acc\<lparr>errors := Suc (errors acc)\<rparr>"] show ?thesis by simp
    qed
  qed
qed

lemma sync_loop_inv:
  assumes "sync_loop e td fs acc w = (res, w')"
  shows "reads w \<le> reads w' \<and> errors acc \<le> errors res
     \<and> (\<exists>new. rows w' = rows w @ new
           \<and> (\<forall>r \<in> set new. has_local_cache r = 1
                 \<and> (\<exists>k. reads w \<le> k \<and> k < reads w' \<and> last_accessed r = clock e k)))"
  using assms
proof (induction fs arbitrary: acc w)
  case Nil
  then show ?case by simp
next
  case (Cons f fs)
  from Cons.prems obtain b w1 acc1 where s: "sync_file e td f w = (b, w1)"
    and l: "sync_loop e td fs acc1 w1 = (res, w')" and a: "errors acc \<le> errors acc1"
    by (rule sync_loop_step)
  from Cons.IH [OF l] obtain new2 where r1: "reads w1 \<le> reads w'"
    and e1: "errors acc1 \<le> errors res"
    and n2: "rows w' = rows w1 @ new2"
    and p2: "\<forall>r \<in> set new2. has_local_cache r = 1
                 \<and> (\<exists>k. reads w1 \<le> k \<and> k < reads w' \<and> last_accessed r = clock e k)"
    by blast
  from sync_file_cases [OF s] obtain new1 where r0: "reads w \<le> reads w1"
    and n1: "rows w1 = rows w @ new1"
    and p1: "\<forall>r \<in> set new1. has_local_cache r = 1
                 \<and> (\<exists>k. reads w \<le> k \<and> k < reads w1 \<and> last_accessed r = clock e k)"
  proof (elim disjE conjE exE)
    assume "w1 = w"
    then show ?thesis using that [of "[]"] by simp
  next
    assume "rows w1 = rows w" "reads w1 = reads w"
    then show ?thesis using that [of "[]"] by simp
  next
    fix new
    assume "reads w1 = Suc (Suc (reads w))" "rows w1 = rows w @ [new]" "has_local_cache new = 1"
      "last_accessed new = clock e (reads w)"
    moreover from this have "\<exists>k. reads w \<le> k \<and> k < reads w1 \<and> last_accessed new = clock e k"
      by (intro exI [of _ "reads w"]) simp
    ultimately show ?thesis using that [of "[new]"] by simp
  qed
  have "\<forall>r \<in> set (new1 @ new2). has_local_cache r = 1
                 \<and> (\<exists>k. reads w \<le> k \<and> k < reads w' \<and> last_accessed r = clock e k)"
  proof
    fix r assume "r \<in> set (new1 @ new2)"
    then consider "r \<in> set new1" | "r \<in> set new2" by auto
    then show "has_local_cache r = 1
                 \<and> (\<exists>k. reads w \<le> k \<and> k < reads w' \<and> last_accessed r = clock e k)"
    proof cases
      case 1
      with p1 obtain k where "has_local_cache r = 1" "reads w \<le> k" "k < reads w1" "last_accessed r = clock e k"
        by blast
      with r1 show ?thesis by (intro conjI exI [of _ k]) auto
    next
      case 2
      with p2 obtain k where "has_local_cache r = 1" "reads w1 \<le> k" "k < reads w'" "last_accessed r = clock e k"
        by blast
      with r0 show ?thesis by (intro conjI exI [of _ k]) auto
    qed
  qed
  moreover have "rows w' = rows w @ (new1 @ new2)"
    using n1 n2 by simp
  ultimately show ?case using r0 r1 a e1 by (intro conjI exI [of _ "new1 @ new2"]) auto
qed

lemma mapping_persists:
  assumes "rows w' = rows w @ new" and "getMappingByPath p w \<noteq> None"
  shows "getMappingByPath p w' \<noteq> None"
  using assms by (auto simp: getMappingByPath_def dest: find_append_Some)

lemma sync_loop_no_errors:
  assumes "sync_loop e td fs acc w = (res, w')" and "errors res = errors acc"
  shows "list_all (\<lambda>f. getMappingByPath (join_path td (obj_name f)) w' \<noteq> None) fs"
  using assms
proof (induction fs arbitrary: acc w)
  case Nil
  then show ?case by simp
next
  case (Cons f fs)
  from Cons.prems(1) obtain b w1 acc1 where s: "sync_file e td f w = (b, w1)"
    and l: "sync_loop e td fs acc1 w1 = (res, w')" and a: "errors acc \<le> errors acc1"
    and strict: "b = Some False \<longrightarrow> errors acc < errors acc1"
    by (rule sync_loop_step)
  from sync_loop_inv [OF l] obtain new where e1: "errors acc1 \<le> errors res"
    and n: "rows w' = rows w1 @ new" by blast
  from e1 a Cons.prems(2) have eq: "errors res = errors acc1" by simp
  from e1 Cons.prems(2) strict have nf: "b \<noteq> Some False" by auto
  with sync_file_cases [OF s] have "getMappingByPath (join_path td (obj_name f)) w1 \<noteq> None"
    by (auto simp: getMappingByPath_def find_None_iff)
  with n have "getMappingByPath (join_path td (obj_name f)) w' \<noteq> None"
    by (rule mapping_persists)
  with Cons.IH [OF l eq] show ?case by simp
qed

lemma sync_loop_all_mapped:
  "list_all (\<lambda>f. getMappingByPath (join_path td (obj_name f)) w \<noteq> None) fs
   \<Longrightarrow> sync_loop e td fs acc w = (acc, w)"
  by (induction fs) (auto simp: sync_file_def)


lemma stale_member:
  "(r \<in> set (fst (getStaleEntries e T w))) =
     (r \<in> set (rows w) \<and> has_local_cache r = 1
        \<and> last_accessed r < clock e (reads w) - T \<and> 0 < last_accessed r)"
  by (auto simp: getStaleEntries_def now_def)

lemma syncNewUploads_loop:
  assumes "syncNewUploads e dirPath w = (Inr res, w')"
  obtains listing where "cr_listDirectory e (or_str dirPath (inboxPath e)) = Inr listing"
    and "sync_loop e (or_str dirPath (inboxPath e))
           (filter (\<lambda>entry. obj_type entry = js ''file'') (nullish listing []))
           \<lparr>synced = 0, errors = 0\<rparr>
           (call (ListDirectory (or_str dirPath (inboxPath e)))
              (call (EnsureDirectory (or_str dirPath (inboxPath e))) w)) = (res, w')"
  using assms
  by (auto simp: syncNewUploads_def Let_def split: sum.splits prod.splits)

lemma sync_file_created:
  assumes "sync_file e td f w = (b, w')"
  shows "(b \<noteq> Some True \<and> rows w' = rows w \<and> reads w' = reads w)
       \<or> (b = Some True \<and> reads w' = reads w + 2
           \<and> (\<exists>new. rows w' = rows w @ [new] \<and> has_local_cache new = 1
                 \<and> last_accessed new = clock e (reads w)
                 \<and> created_at new = clock e (reads w + 1)))"
proof (cases "getMappingByPath (join_path td (obj_name f)) w")
  case (Some m)
  with assms show ?thesis by (auto simp: sync_file_def)
next
  case None
  then have n: "join_path td (obj_name f) \<notin> set (map cloudreve_path (rows w))"
    by (simp add: getMappingByPath_def find_path_None)
  show ?thesis
    using assms None n
    by (auto simp: sync_file_def Let_def now_def call_def rows_upsertMapping insert_or_update_def
        upsertMapping_def bound_row_def nullish_def
        split: sum.splits option.splits if_splits prod.splits)
qed

lemma sync_loop_created:
  assumes "sync_loop e td fs acc w = (res, w')"
  shows "\<exists>created. rows w' = rows w @ created
     \<and> synced res = synced acc + length created
     \<and> reads w' = reads w + 2 * length created
     \<and> (\<forall>j < length created.
           has_local_cache (created ! j) = 1
         \<and> last_accessed (created ! j) = clock e (reads w + 2 * j)
         \<and> created_at (created ! j) = clock e (reads w + 2 * j + 1))"
  using assms
proof (induction fs arbitrary: acc w)
  case Nil
  then show ?case by simp
next
  case (Cons f fs)
  obtain b w1 where s: "sync_file e td f w = (b, w1)"
    by (cases "sync_file e td f w")
  let ?acc1 = "case b of None \<Rightarrow> acc
               | Some False \<Rightarrow> acc\<lparr>errors := Suc (errors acc)\<rparr>
               | Some True \<Rightarrow> acc\<lparr>synced := Suc (synced acc)\<rparr>"
  from Cons.prems s have l: "sync_loop e td fs ?acc1 w1 = (res, w')"
    by (auto split: option.splits bool.splits)
  from Cons.IH [OF l] obtain c2 where c2: "rows w' = rows w1 @ c2"
    "synced res = synced ?acc1 + length c2"
    "reads w' = reads w1 + 2 * length c2"
    "\<forall>j < length c2.
           has_local_cache (c2 ! j) = 1
         \<and> last_accessed (c2 ! j) = clock e (reads w1 + 2 * j)
         \<and> created_at (c2 ! j) = clock e (reads w1 + 2 * j + 1)"
    by blast
  from sync_file_created [OF s] show ?case
  proof (elim disjE conjE exE)
    assume "b \<noteq> Some True" "rows w1 = rows w" "reads w1 = reads w"
    moreover from this have "synced ?acc1 = synced acc"
      by (auto split: option.splits bool.splits)
    ultimately show ?thesis using c2
      by (intro exI [of _ c2]) simp
  next
    fix new
    assume h: "b = Some True" "reads w1 = reads w + 2" "rows w1 = rows w @ [new]"
      "has_local_cache new = 1" "last_accessed new = clock e (reads w)"
      "created_at new = clock e (reads w + 1)"
    have "\<forall>j < length (new # c2).
           has_local_cache ((new # c2) ! j) = 1
         \<and> last_accessed ((new # c2) ! j) = clock e (reads w + 2 * j)
         \<and> created_at ((new # c2) ! j) = clock e (reads w + 2 * j + 1)"
    proof (intro allI impI)
      fix j assume j: "j < length (new # c2)"
      show "has_local_cache ((new # c2) ! j) = 1
         \<and> last_accessed ((new # c2) ! j) = clock e (reads w + 2 * j)
         \<and> created_at ((new # c2) ! j) = clock e (reads w + 2 * j + 1)"
      proof (cases j)
        case 0
        with h show ?thesis by simp
      next
        case (Suc i)
        with j have "i < length c2" by simp
        with c2(4) have "has_local_cache (c2 ! i) = 1
         \<and> last_accessed (c2 ! i) = clock e (reads w1 + 2 * i)
         \<and> created_at (c2 ! i) = clock e (reads w1 + 2 * i + 1)" by blast
        with Suc h(2) show ?thesis by (simp add: add.commute add.left_commute)
      qed
    qed
    moreover have "rows w' = rows w @ (new # c2)"
      using c2(1) h(3) by simp
    moreover have "synced res = synced acc + length (new # c2)"
      using c2(2) h(1) by simp
    moreover have "reads w' = reads w + 2 * length (new # c2)"
      using c2(3) h(2) by simp
    ultimately show ?thesis by blast
  qed
qed

text \<open>
  C6, as stated: every mapping created by \<open>syncDirectory\<close> that has never been served by
  \<open>downloadProxy\<close> has \<open>lastAccessed = 0\<close> and is never returned by \<open>listStale(T)\<close>. It
  fails: the mapping that a sync run creates at time 1000 has \<open>lastAccessed = 1000\<close>,
  and \<open>listStale(60)\<close> at time 3000 returns it, with no call of \<open>downloadProxy\<close> between.
\<close>

theorem synced_mapping_counterexample:
  "rows (snd (syncNewUploads env0 None empty_world)) =
     [row0\<lparr>mime_type := Some (js ''image/png''), last_accessed := 1000, created_at := 2000,
            has_local_cache := 1\<rparr>]
   \<and> calls (snd (syncNewUploads env0 None empty_world)) =
     [EnsureDirectory (js ''/inbox''), ListDirectory (js ''/inbox''), CrDownload (Str (js ''cf-1'')),
      TgUpload \<lparr>tg_data = [1, 2, 3], tg_fileName = js ''a.txt'', tg_mimeType = js ''image/png'',
                tg_fileSize = 3, tg_caption = js ''Synced from Cloudreve: /inbox/a.txt''\<rparr>]
   \<and> fst (getStaleEntries env0 60 (snd (syncNewUploads env0 None empty_world))) =
     [row0\<lparr>mime_type := Some (js ''image/png''), last_accessed := 1000, created_at := 2000,
            has_local_cache := 1\<rparr>]"
  by code_simp

text \<open>
  C6, amended. Every mapping created by \<open>syncDirectory\<close> has \<open>cached = true\<close> and a
  \<open>lastAccessed\<close> equal to the reading of the clock taken at its creation, the reading
  just before the one stored as \<open>createdAt\<close>; as long as it is the row that the run
  stored, \<open>listStale(T)\<close> returns it exactly when that reading is positive and strictly
  less than \<open>now - T\<close>. The run appends the created rows to the table in order and reads
  the clock twice for each, and for nothing else.
\<close>

theorem synced_mapping_last_accessed:
  assumes run: "syncNewUploads e dirPath w = (Inr res, w')"
  shows "take (length (rows w)) (rows w') = rows w
     \<and> length (rows w') = length (rows w) + synced res
     \<and> reads w' = reads w + 2 * synced res
     \<and> (\<forall>j < synced res.
           has_local_cache (rows w' ! (length (rows w) + j)) = 1
         \<and> last_accessed (rows w' ! (length (rows w) + j)) = clock e (reads w + 2 * j)
         \<and> created_at (rows w' ! (length (rows w) + j)) = clock e (reads w + 2 * j + 1)
         \<and> (rows w' ! (length (rows w) + j) \<in> set (fst (getStaleEntries e' T w'))) =
             (0 < clock e (reads w + 2 * j)
              \<and> clock e (reads w + 2 * j) < clock e' (reads w') - T))"
proof -
  from run obtain listing where
    "sync_loop e (or_str dirPath (inboxPath e))
           (filter (\<lambda>entry. obj_type entry = js ''file'') (nullish listing []))
           \<lparr>synced = 0, errors = 0\<rparr>
           (call (ListDirectory (or_str dirPath (inboxPath e)))
              (call (EnsureDirectory (or_str dirPath (inboxPath e))) w)) = (res, w')"
    by (rule syncNewUploads_loop)
  from sync_loop_created [OF this] obtain created where c: "rows w' = rows w @ created"
    "synced res = length created" "reads w' = reads w + 2 * length created"
    "\<forall>j < length created.
           has_local_cache (created ! j) = 1
         \<and> last_accessed (created ! j) = clock e (reads w + 2 * j)
         \<and> created_at (created ! j) = clock e (reads w + 2 * j + 1)"
    by auto
  have "\<forall>j < synced res.
           has_local_cache (rows w' ! (length (rows w) + j)) = 1
         \<and> last_accessed (rows w' ! (length (rows w) + j)) = clock e (reads w + 2 * j)
         \<and> created_at (rows w' ! (length (rows w) + j)) = clock e (reads w + 2 * j + 1)
         \<and> (rows w' ! (length (rows w) + j) \<in> set (fst (getStaleEntries e' T w'))) =
             (0 < clock e (reads w + 2 * j)
              \<and> clock e (reads w + 2 * j) < clock e' (reads w') - T)"
  proof (intro allI impI)
    fix j assume "j < synced res"
    with c(2) have j: "j < length created" by simp
    with c(1) have n: "rows w' ! (length (rows w) + j) = created ! j"
      by (simp add: nth_append)
    from j c(1) have m: "created ! j \<in> set (rows w')"
      by simp
    from c(4) j have p: "has_local_cache (created ! j) = 1"
      "last_accessed (created ! j) = clock e (reads w + 2 * j)"
      "created_at (created ! j) = clock e (reads w + 2 * j + 1)"
      by blast+
    with m n show "has_local_cache (rows w' ! (length (rows w) + j)) = 1
         \<and> last_accessed (rows w' ! (length (rows w) + j)) = clock e (reads w + 2 * j)
         \<and> created_at (rows w' ! (length (rows w) + j)) = clock e (reads w + 2 * j + 1)
         \<and> (rows w' ! (length (rows w) + j) \<in> set (fst (getStaleEntries e' T w'))) =
             (0 < clock e (reads w + 2 * j)
              \<and> clock e (reads w + 2 * j) < clock e' (reads w') - T)"
      by (auto simp: stale_member)
  qed
  with c(1,2,3) show ?thesis by simp
qed

theorem synced_mapping_last_accessed_witness:
  "fst (syncNewUploads env0 None empty_world) = Inr \<lparr>synced = 1, errors = 0\<rparr>
   \<and> rows (snd (syncNewUploads env0 None empty_world)) =
       [row0\<lparr>mime_type := Some (js ''image/png''), last_accessed := clock env0 0,
              created_at := clock env0 1, has_local_cache := 1\<rparr>]
   \<and> clock env0 0 = 1000
   \<and> row0\<lparr>mime_type := Some (js ''image/png''), last_accessed := clock env0 0,
           created_at := clock env0 1, has_local_cache := 1\<rparr>
       \<in> set (fst (getStaleEntries env0 60 (snd (syncNewUploads env0 None empty_world))))"
proof -
  let ?w = "snd (syncNewUploads env0 None empty_world)"
  let ?r = "row0\<lparr>mime_type := Some (js ''image/png''), last_accessed := clock env0 0,
           created_at := clock env0 1, has_local_cache := 1\<rparr>"
  have f: "fst (syncNewUploads env0 None empty_world) = Inr \<lparr>synced = 1, errors = 0\<rparr>"
    by code_simp
  then have run: "syncNewUploads env0 None empty_world = (Inr \<lparr>synced = 1, errors = 0\<rparr>, ?w)"
    by (simp add: prod_eq_iff)
  have rs: "rows ?w = [?r]"
    by code_simp
  have rd: "reads ?w = 2"
    by code_simp
  have c: "clock env0 0 = 1000" "clock env0 2 = 3000"
    by (simp_all add: env0_def)
  have e: "rows empty_world = []" "reads empty_world = 0"
    by (simp_all add: empty_world_def)
  from synced_mapping_last_accessed [OF run, of env0 60]
  have "(rows ?w ! (length (rows empty_world) + 0) \<in> set (fst (getStaleEntries env0 60 ?w))) =
             (0 < clock env0 (reads empty_world + 2 * 0)
              \<and> clock env0 (reads empty_world + 2 * 0) < clock env0 (reads ?w) - 60)"
    by simp
  then have "?r \<in> set (fst (getStaleEntries env0 60 ?w))"
    by (simp add: rs rd e c)
  with f rs c(1) show ?thesis by blast
qed

text \<open>
  C7, as stated: for every directory whose listing and mapping store are unchanged
  between two calls, a second \<open>syncDirectory\<close> returns \<open>synced = 0\<close>. It fails when the
  first run counted an error for a file: that file has no mapping, and the second run
  over the same listing backs it up.
\<close>

theorem sync_twice_counterexample:
  "fst (syncNewUploads env_cr_down None empty_world) = Inr \<lparr>synced = 0, errors = 1\<rparr>
   \<and> rows (snd (syncNewUploads env_cr_down None empty_world)) = rows empty_world
   \<and> cr_listDirectory env0 (js ''/inbox'') = cr_listDirectory env_cr_down (js ''/inbox'')
   \<and> fst (syncNewUploads env0 None (snd (syncNewUploads env_cr_down None empty_world))) =
       Inr \<lparr>synced = 1, errors = 0\<rparr>"
  by code_simp

text \<open>
  C7, amended. For every directory whose listing and mapping store are unchanged between
  two calls, if the first run of \<open>syncDirectory\<close> returned with \<open>errors = 0\<close>, the second
  run returns \<open>synced = 0\<close> and \<open>errors = 0\<close>, and it makes no call but
  \<open>ensureDirectory\<close> and \<open>listDirectory\<close>: no download, no upload to the secondary store
  and no upsert. Every file whose full path already has a mapping is skipped, whatever
  its \<open>cached\<close> state, and the skip changes nothing.
\<close>

theorem sync_twice_synced_zero:
  assumes first: "syncNewUploads e1 dirPath w = (Inr res1, w1)"
    and clean: "errors res1 = 0"
    and same_dir: "or_str dirPath (inboxPath e2) = or_str dirPath (inboxPath e1)"
    and same_listing: "cr_listDirectory e2 (or_str dirPath (inboxPath e1)) =
                       cr_listDirectory e1 (or_str dirPath (inboxPath e1))"
  shows "syncNewUploads e2 dirPath w1 =
           (Inr \<lparr>synced = 0, errors = 0\<rparr>,
            call (ListDirectory (or_str dirPath (inboxPath e1)))
              (call (EnsureDirectory (or_str dirPath (inboxPath e1))) w1))
         \<and> (getMappingByPath (join_path td (obj_name file)) w0 = Some existing
              \<longrightarrow> sync_file e td file w0 = (None, w0))"
proof -
  let ?td = "or_str dirPath (inboxPath e1)"
  from first obtain listing where l: "cr_listDirectory e1 ?td = Inr listing"
    and loop: "sync_loop e1 ?td
           (filter (\<lambda>entry. obj_type entry = js ''file'') (nullish listing []))
           \<lparr>synced = 0, errors = 0\<rparr>
           (call (ListDirectory ?td) (call (EnsureDirectory ?td) w)) = (res1, w1)"
    by (rule syncNewUploads_loop)
  from sync_loop_no_errors [OF loop] clean
  have "list_all (\<lambda>f. getMappingByPath (join_path ?td (obj_name f)) w1 \<noteq> None)
          (filter (\<lambda>entry. obj_type entry = js ''file'') (nullish listing []))"
    by simp
  then have "list_all (\<lambda>f. getMappingByPath (join_path ?td (obj_name f))
                (call (ListDirectory ?td) (call (EnsureDirectory ?td) w1)) \<noteq> None)
          (filter (\<lambda>entry. obj_type entry = js ''file'') (nullish listing []))"
    by simp
  from sync_loop_all_mapped [OF this]
  have "sync_loop e2 ?td (filter (\<lambda>entry. obj_type entry = js ''file'') (nullish listing []))
          \<lparr>synced = 0, errors = 0\<rparr> (call (ListDirectory ?td) (call (EnsureDirectory ?td) w1)) =
        (\<lparr>synced = 0, errors = 0\<rparr>, call (ListDirectory ?td) (call (EnsureDirectory ?td) w1))" .
  with l same_dir same_listing show ?thesis
    by (simp add: syncNewUploads_def sync_file_skip Let_def)
qed

theorem sync_twice_synced_zero_witness:
  "fst (syncNewUploads env0 None empty_world) = Inr \<lparr>synced = 1, errors = 0\<rparr>
   \<and> syncNewUploads env0 None (snd (syncNewUploads env0 None empty_world)) =
       (Inr \<lparr>synced = 0, errors = 0\<rparr>,
        call (ListDirectory (js ''/inbox''))
          (call (EnsureDirectory (js ''/inbox'')) (snd (syncNewUploads env0 None empty_world))))
   \<and> sync_file env0 (js ''/inbox'') file0 world0 = (None, world0)"
proof -
  let ?w = "snd (syncNewUploads env0 None empty_world)"
  have f: "fst (syncNewUploads env0 None empty_world) = Inr \<lparr>synced = 1, errors = 0\<rparr>"
    by code_simp
  then have run: "syncNewUploads env0 None empty_world = (Inr \<lparr>synced = 1, errors = 0\<rparr>, ?w)"
    by (simp add: prod_eq_iff)
  have clean: "errors \<lparr>synced = 1, errors = 0\<rparr> = 0"
    by simp
  have td: "or_str None (inboxPath env0) = js ''/inbox''"
    by (simp add: or_str_def env0_def)
  have m: "getMappingByPath (join_path (js ''/inbox'') (obj_name file0)) world0 = Some row0"
    by code_simp
  from sync_twice_synced_zero [OF run clean refl refl, of "js ''/inbox''" file0 world0 row0 env0] m f
  show ?thesis
    by (simp add: td)
qed

section \<open>Properties of the import engine\<close>

lemma getMappingByPath_now [simp]: "getMappingByPath p (snd (now e w)) = getMappingByPath p w"
  by (simp add: getMappingByPath_def now_def)

text \<open>
  C8, as stated: for every pair of \<open>importFile\<close> calls whose \<open>fileName\<close> sanitizes to the
  same destination path, the second call performs no download from the secondary store
  and no upload to the primary store. It fails when the first call throws: no mapping is
  stored, and the second call downloads and uploads.
\<close>

theorem import_twice_counterexample:
  "fst (importFromTelegram env_tg_down
         \<lparr>in_telegramFileId = js ''tg-5'', in_telegramMessageId = Some 5,
          in_fileName = Some (js ''b.txt''), in_mimeType = None, in_fileSize = None\<rparr>
         empty_world) = Inl (UpstreamError (js ''down''))
   \<and> calls (snd (importFromTelegram env_tg_down
         \<lparr>in_telegramFileId = js ''tg-5'', in_telegramMessageId = Some 5,
          in_fileName = Some (js ''b.txt''), in_mimeType = None, in_fileSize = None\<rparr>
         empty_world)) = [EnsureDirectory (js ''/inbox''), TgDownload (js ''tg-5'')]
   \<and> calls (snd (importFromTelegram env0
         \<lparr>in_telegramFileId = js ''tg-5'', in_telegramMessageId = Some 5,
          in_fileName = Some (js ''b.txt''), in_mimeType = None, in_fileSize = None\<rparr>
         (snd (importFromTelegram env_tg_down
            \<lparr>in_telegramFileId = js ''tg-5'', in_telegramMessageId = Some 5,
             in_fileName = Some (js ''b.txt''), in_mimeType = None, in_fileSize = None\<rparr>
            empty_world)))) =
       [EnsureDirectory (js ''/inbox''), TgDownload (js ''tg-5''),
        EnsureDirectory (js ''/inbox''), TgDownload (js ''tg-5''),
        CrUpload \<lparr>filePath = js ''/inbox/b.txt'', up_fileName = js ''b.txt'', up_fileSize = 3,
                  up_mimeType = js ''application/octet-stream'', up_data = [1, 2, 3]\<rparr>]"
  by code_simp

text \<open>
  C8, amended. For every pair of \<open>importFile\<close> calls whose \<open>fileName\<close> sanitizes to the
  same destination path, if the first call returns, the second call makes no call to
  either store and changes nothing; it returns the same destination path, the
  \<open>secondaryId\<close> stored in the existing mapping, which is the one the first call returned,
  and a share link built from the primary store's base URL.
\<close>

theorem import_twice:
  assumes first: "importFromTelegram e1 opts1 w = (Inr res1, w1)"
    and same: "destPath e2 (in_fileName opts2) = destPath e1 (in_fileName opts1)"
  shows "importFromTelegram e2 opts2 w1 =
           (Inr (res1\<lparr>directLink := buildCloudreveLink (baseUrl e2) (imported_path res1)\<rparr>), w1)
         \<and> imported_path res1 = destPath e1 (in_fileName opts1)
         \<and> map_option telegram_file_id (getMappingByPath (imported_path res1) w1) =
             Some (tgFileId res1)"
proof (cases "getMappingByPath (destPath e1 (in_fileName opts1)) w")
  case (Some existing)
  with first have "w1 = w"
    and "res1 = \<lparr>imported_path = destPath e1 (in_fileName opts1),
                  tgFileId = telegram_file_id existing,
                  directLink = buildCloudreveLink (baseUrl e1) (destPath e1 (in_fileName opts1))\<rparr>"
    by (auto simp: importFromTelegram_def Let_def)
  with Some same show ?thesis
    by (simp add: importFromTelegram_def Let_def)
next
  case None
  with first obtain r w5 where w1: "w1 = upsertMapping e1 r w5"
    and r: "record_path r = destPath e1 (in_fileName opts1)"
           "telegramFileId r = in_telegramFileId opts1"
    and g: "getMappingByPath (destPath e1 (in_fileName opts1)) w5 = None"
    and res: "res1 = \<lparr>imported_path = destPath e1 (in_fileName opts1),
                  tgFileId = in_telegramFileId opts1,
                  directLink = buildCloudreveLink (baseUrl e1) (destPath e1 (in_fileName opts1))\<rparr>"
    by (auto simp: importFromTelegram_def Let_def now_def getMappingByPath_def call_def
        split: sum.splits prod.splits)
  from w1 r g have "getMappingByPath (destPath e1 (in_fileName opts1)) w1 = Some (bound_row e1 r w5)"
    by (simp add: getMappingByPath_upsertMapping)
  moreover have "telegram_file_id (bound_row e1 r w5) = in_telegramFileId opts1"
    using r by (simp add: bound_row_def)
  ultimately show ?thesis using same res
    by (simp add: importFromTelegram_def Let_def)
qed

theorem import_twice_witness:
  "fst (importFromTelegram env0
         \<lparr>in_telegramFileId = js ''tg-5'', in_telegramMessageId = Some 5,
          in_fileName = Some (js ''b c.txt''), in_mimeType = None, in_fileSize = None\<rparr>
         empty_world) =
     Inr \<lparr>imported_path = js ''/inbox/b_c.txt'', tgFileId = js ''tg-5'',
          directLink = js ''http://c/s/inbox/b_c.txt''\<rparr>
   \<and> importFromTelegram env0
         \<lparr>in_telegramFileId = js ''tg-6'', in_telegramMessageId = Some 6,
          in_fileName = Some (js ''b:c.txt''), in_mimeType = None, in_fileSize = None\<rparr>
         (snd (importFromTelegram env0
            \<lparr>in_telegramFileId = js ''tg-5'', in_telegramMessageId = Some 5,
             in_fileName = Some (js ''b c.txt''), in_mimeType = None, in_fileSize = None\<rparr>
            empty_world)) =
     (Inr \<lparr>imported_path = js ''/inbox/b_c.txt'', tgFileId = js ''tg-5'',
           directLink = js ''http://c/s/inbox/b_c.txt''\<rparr>,
      snd (importFromTelegram env0
            \<lparr>in_telegramFileId = js ''tg-5'', in_telegramMessageId = Some 5,
             in_fileName = Some (js ''b c.txt''), in_mimeType = None, in_fileSize = None\<rparr>
            empty_world))"
proof -
  let ?o1 = "\<lparr>in_telegramFileId = js ''tg-5'', in_telegramMessageId = Some 5,
          in_fileName = Some (js ''b c.txt''), in_mimeType = None, in_fileSize = None\<rparr>"
  let ?o2 = "\<lparr>in_telegramFileId = js ''tg-6'', in_telegramMessageId = Some 6,
          in_fileName = Some (js ''b:c.txt''), in_mimeType = None, in_fileSize = None\<rparr>"
  let ?res = "\<lparr>imported_path = js ''/inbox/b_c.txt'', tgFileId = js ''tg-5'',
          directLink = js ''http://c/s/inbox/b_c.txt''\<rparr>"
  have f: "fst (importFromTelegram env0 ?o1 empty_world) = Inr ?res"
    by code_simp
  then have first: "importFromTelegram env0 ?o1 empty_world =
                 (Inr ?res, snd (importFromTelegram env0 ?o1 empty_world))"
    by (simp add: prod_eq_iff)
  have same: "destPath env0 (in_fileName ?o2) = destPath env0 (in_fileName ?o1)"
    by code_simp
  have link: "buildCloudreveLink (baseUrl env0) (js ''/inbox/b_c.txt'') = js ''http://c/s/inbox/b_c.txt''"
    by code_simp
  from import_twice [OF first same] f show ?thesis
    by (simp add: link)
qed

section \<open>Properties of the eviction pass\<close>








end
